theory Spec2Isabelle
  imports Main "HOL-Library.Sublist" "HOL-Library.Word"
begin

section \<open>Python string operations used by the service\<close>

text \<open>
  The service (packages/python-alt-text/app.py) post-processes model output with a handful of
  built-in \<^verbatim>\<open>str\<close> methods. A Python string is modelled as a \<^typ>\<open>string\<close>; a character
  stands for a code point below 256. \<open>is_space\<close> is \<^verbatim>\<open>str.isspace\<close> on that range:
  TAB, LF, VT, FF, CR, the separators FS, GS, RS, US, the blank, NEL (0x85) and the no-break
  space (0xA0).
\<close>

definition is_space :: "char \<Rightarrow> bool" where
  "is_space c \<longleftrightarrow> of_char c \<in> {9, 10, 11, 12, 13, 28, 29, 30, 31, 32, 133, 160 :: nat}"

text \<open>\<^verbatim>\<open>s.split()\<close>: skip a run of whitespace, take the maximal run of other characters,
  repeat. No word is empty and the result of an all-blank string is the empty list.\<close>

function py_split :: "string \<Rightarrow> string list" where
  "py_split s =
     (case dropWhile is_space s of
        [] \<Rightarrow> []
      | c # cs \<Rightarrow> takeWhile (\<lambda>x. \<not> is_space x) (c # cs)
                 # py_split (dropWhile (\<lambda>x. \<not> is_space x) (c # cs)))"
  by pat_completeness auto
termination
proof (relation "measure length")
  show "wf (measure length)" by simp
next
  fix s :: string and c cs
  assume d: "dropWhile is_space s = c # cs"
  have "\<not> is_space c"
    using d hd_dropWhile [of is_space s] by simp
  then have "dropWhile (\<lambda>x. \<not> is_space x) (c # cs) = dropWhile (\<lambda>x. \<not> is_space x) cs"
    by simp
  moreover have "length (dropWhile (\<lambda>x. \<not> is_space x) cs) \<le> length cs"
    by (rule length_dropWhile_le)
  ultimately have "length (dropWhile (\<lambda>x. \<not> is_space x) (c # cs)) < length (c # cs)"
    by simp
  moreover have "length (c # cs) \<le> length s"
    using length_dropWhile_le [of is_space s] d by simp
  ultimately show "(dropWhile (\<lambda>x. \<not> is_space x) (c # cs), s) \<in> measure length"
    by simp
qed

declare py_split.simps [simp del]

text \<open>\<^verbatim>\<open>sep.join(parts)\<close>.\<close>

fun py_join :: "string \<Rightarrow> string list \<Rightarrow> string" where
  "py_join sep [] = []"
| "py_join sep [w] = w"
| "py_join sep (w # v # ws) = w @ sep @ py_join sep (v # ws)"

text \<open>\<^verbatim>\<open>s.strip(chars)\<close> removes from both ends every character that occurs in
  \<open>chars\<close>; \<^verbatim>\<open>s.strip()\<close> removes whitespace from both ends.\<close>

definition drop_while_end :: "(char \<Rightarrow> bool) \<Rightarrow> string \<Rightarrow> string" where
  "drop_while_end P s = rev (dropWhile P (rev s))"

definition py_strip_chars :: "string \<Rightarrow> string \<Rightarrow> string" where
  "py_strip_chars chars s =
     drop_while_end (\<lambda>c. c \<in> set chars) (dropWhile (\<lambda>c. c \<in> set chars) s)"

definition py_strip :: "string \<Rightarrow> string" where
  "py_strip s = drop_while_end is_space (dropWhile is_space s)"

text \<open>\<^verbatim>\<open>sub in s\<close>: \<open>sub\<close> occurs in \<open>s\<close> as a contiguous substring.\<close>

fun py_contains :: "string \<Rightarrow> string \<Rightarrow> bool" where
  "py_contains sub [] = (sub = [])"
| "py_contains sub (c # cs) = (prefix sub (c # cs) \<or> py_contains sub cs)"

text \<open>\<^verbatim>\<open>s.split(sep)\<close> for a non-empty separator: the pieces between the non-overlapping
  occurrences of \<open>sep\<close>, found from left to right. The second argument is the piece
  being collected. (Python raises ValueError for an empty separator; the service only
  splits at the literal \<^verbatim>\<open>"Alt:"\<close>.)\<close>

function py_split_sep :: "string \<Rightarrow> string \<Rightarrow> string \<Rightarrow> string list" where
  "py_split_sep sep cur [] = [cur]"
| "py_split_sep sep cur (c # cs) =
     (if sep \<noteq> [] \<and> prefix sep (c # cs)
      then cur # py_split_sep sep [] (drop (length sep) (c # cs))
      else py_split_sep sep (cur @ [c]) cs)"
  by pat_completeness auto
termination
  by (relation "measure (\<lambda>(sep, cur, s). length s)") auto

text \<open>\<^verbatim>\<open>s.replace(old, "")\<close>: every non-overlapping occurrence of \<open>old\<close>, found from
  left to right, is deleted. Replacing the empty string by the empty string changes
  nothing.\<close>

function py_replace_empty :: "string \<Rightarrow> string \<Rightarrow> string" where
  "py_replace_empty old [] = []"
| "py_replace_empty old (c # cs) =
     (if old \<noteq> [] \<and> prefix old (c # cs)
      then py_replace_empty old (drop (length old) (c # cs))
      else c # py_replace_empty old cs)"
  by pat_completeness auto
termination
  by (relation "measure (\<lambda>(old, s). length s)") auto

text \<open>\<^verbatim>\<open>s.startswith(p)\<close> is \<^const>\<open>prefix\<close> \<open>p s\<close>.\<close>

section \<open>Post-processing of the refiner's output\<close>

text \<open>Lines 226--230 of \<^verbatim>\<open>refine_alt_text\<close>: the text after the last \<^verbatim>\<open>"Alt:"\<close> marker
  when there is one, else the generated text with the prompt deleted; stripped of
  whitespace in both cases.\<close>

definition refine_alt_text_extract :: "string \<Rightarrow> string \<Rightarrow> string" where
  "refine_alt_text_extract prompt generated_text =
     (if py_contains ''Alt:'' generated_text
      then py_strip (last (py_split_sep ''Alt:'' [] generated_text))
      else py_strip (py_replace_empty prompt generated_text))"

text \<open>Line 242: \<^verbatim>\<open>alt_text.strip('"').strip("'").strip()\<close>.\<close>

definition strip_quotes :: "string \<Rightarrow> string" where
  "strip_quotes alt_text =
     py_strip (py_strip_chars [CHR 0x27] (py_strip_chars [CHR 0x22] alt_text))"

text \<open>Lines 232--245: the word-count policy, the quote stripping and the final
  \<^verbatim>\<open>alt_text or caption_text\<close>. The third branch of the source's chain
  (\<^verbatim>\<open>elif len(words) == 0\<close>) is kept although the second one shadows it.\<close>

definition refine_alt_text_clean :: "string \<Rightarrow> string \<Rightarrow> string" where
  "refine_alt_text_clean caption_text alt_text0 =
     (let words = py_split alt_text0;
          alt_text1 =
            (if length words > 12 then py_join '' '' (take 10 words)
             else if length words < 8 then caption_text
             else if length words = 0 then caption_text
             else alt_text0);
          alt_text2 = strip_quotes alt_text1
      in if alt_text2 = [] then caption_text else alt_text2)"

text \<open>Lines 249--251, the handler of the \<^verbatim>\<open>except\<close> clause: the first ten words of the
  caption, or the caption itself when it has no word.\<close>

definition refine_alt_text_fallback :: "string \<Rightarrow> string" where
  "refine_alt_text_fallback caption_text =
     (let words = take 10 (py_split caption_text)
      in if words \<noteq> [] then py_join '' '' words else caption_text)"

section \<open>Exceptions, module globals and the model runtime\<close>

text \<open>
  A raised exception is a value. Every constructor stands for an instance of Python's
  \<^verbatim>\<open>Exception\<close> class, which is what the source's \<^verbatim>\<open>except Exception\<close> clauses catch:
  \<open>LibraryError\<close> is any such exception raised inside transformers, torch or PIL, the
  others are raised by the service or by the interpreter on its behalf. Signals outside
  that class (KeyboardInterrupt, SystemExit, task cancellation) end the process or the
  task and are not modelled.
\<close>

datatype exn =
    RuntimeError string
  | HTTPException nat string
  | KeyError string
  | TypeError string
  | AttributeError string
  | LibraryError string

function show_nat :: "nat \<Rightarrow> string" where
  "show_nat n =
     (if n < 10 then [char_of (48 + n)]
      else show_nat (n div 10) @ [char_of (48 + n mod 10)])"
  by pat_completeness auto
termination
  by (relation "measure id") auto

declare show_nat.simps [simp del]

text \<open>\<^verbatim>\<open>repr(s)\<close> of a string, which is what \<^verbatim>\<open>str\<close> gives for a KeyError with that key:
  single quotes around it, or double quotes when the string holds a single quote and no
  double quote; the enclosing quote and the backslash are escaped, TAB, LF and CR are
  written \<^verbatim>\<open>\t\<close>, \<^verbatim>\<open>\n\<close>, \<^verbatim>\<open>\r\<close>, and the other characters that are not printable
  (below 0x20, 0x7F to 0xA0, 0xAD) as \<^verbatim>\<open>\xhh\<close>.\<close>

definition hex_digit :: "nat \<Rightarrow> char" where
  "hex_digit n = (if n < 10 then char_of (48 + n) else char_of (87 + n))"

definition py_repr_char :: "char \<Rightarrow> char \<Rightarrow> string" where
  "py_repr_char q c =
     (let n = (of_char c :: nat) in
      if c = q \<or> c = CHR 0x5C then [CHR 0x5C, c]
      else if n = 9 then [CHR 0x5C, CHR ''t'']
      else if n = 10 then [CHR 0x5C, CHR ''n'']
      else if n = 13 then [CHR 0x5C, CHR ''r'']
      else if n < 32 \<or> (127 \<le> n \<and> n \<le> 160) \<or> n = 173
      then [CHR 0x5C, CHR ''x'', hex_digit (n div 16), hex_digit (n mod 16)]
      else [c])"

definition py_repr :: "string \<Rightarrow> string" where
  "py_repr s =
     (let q = (if CHR 0x27 \<in> set s \<and> CHR 0x22 \<notin> set s then CHR 0x22 else CHR 0x27)
      in [q] @ concat (map (py_repr_char q) s) @ [q])"

text \<open>\<^verbatim>\<open>str(exc)\<close>, as the f-strings of the load functions render the cause.\<close>

fun exn_str :: "exn \<Rightarrow> string" where
  "exn_str (RuntimeError m) = m"
| "exn_str (HTTPException code detail) = show_nat code @ '': '' @ detail"
| "exn_str (KeyError k) = py_repr k"
| "exn_str (TypeError m) = m"
| "exn_str (AttributeError m) = m"
| "exn_str (LibraryError m) = m"

text \<open>
  Calls into the third-party runtime are recorded, in order, in a trace: one event per
  call, whether it returns or raises. The trace is what a test double's counters
  observe.
\<close>

datatype event =
    BlipProcessor_load | BlipModel_load | Tokenizer_load | CausalLM_load
  | Mps_query | Model_to_mps | Model_eval | Set_pad_token
  | Image_open | Blip_preprocess | Tensor_to_mps | Blip_generate | Blip_decode
  | Tokenize | Tensor_len | Eos_token_id | Alt_generate | Alt_decode

text \<open>The module globals (lines 35--44). \<open>None\<close> is Python's \<^verbatim>\<open>None\<close>. The two locks are
  held only inside one call of a load function, so the sequential model has no field for
  them; they return in the interleaving model further down.\<close>

record ('p, 'm, 't, 'c) globals =
  BLIP_MODEL :: "'m option"
  BLIP_PROCESSOR :: "'p option"
  ALT_MODEL :: "'c option"
  ALT_TOKENIZER :: "'t option"
  trace :: "event list"

text \<open>The configuration read from the environment at import time that reaches the code
  under study. (The sampling temperature, a float, and the fixed keyword arguments of the
  generation calls belong to the runtime's functions below.)\<close>

record config =
  BLIP_MODEL_NAME :: string
  ALT_MODEL_NAME :: string
  ALT_REFINEMENT_MAX_LENGTH :: int

text \<open>
  The third-party runtime, as a record of fallible functions. Each one receives the trace
  so far: its result may differ from call to call, as a download or a sampling generation
  does. \<open>'p\<close>, \<open>'m\<close>, \<open>'t\<close>, \<open>'c\<close> are the BLIP processor, the BLIP model, the tokenizer and
  the causal language model; \<open>'i\<close> is a decoded image and \<open>'x\<close> a tensor.
  \<open>blip_decode_first\<close> and \<open>alt_decode_first\<close> are \<^verbatim>\<open>decode(output[0],
  skip_special_tokens=True)\<close>; \<open>first_row_len\<close> is \<^verbatim>\<open>len(t[0])\<close>.
\<close>

record ('p, 'm, 't, 'c, 'i, 'x) runtime =
  mps_is_available :: "event list \<Rightarrow> exn + bool"
  BlipProcessor_from_pretrained :: "event list \<Rightarrow> string \<Rightarrow> exn + 'p"
  BlipModel_from_pretrained :: "event list \<Rightarrow> string \<Rightarrow> exn + 'm"
  blip_model_to_mps :: "event list \<Rightarrow> 'm \<Rightarrow> exn + 'm"
  blip_model_eval :: "event list \<Rightarrow> 'm \<Rightarrow> exn + 'm"
  AutoTokenizer_from_pretrained :: "event list \<Rightarrow> string \<Rightarrow> exn + 't"
  tokenizer_pad_to_eos :: "event list \<Rightarrow> 't \<Rightarrow> exn + 't"
  AutoModel_from_pretrained :: "event list \<Rightarrow> string \<Rightarrow> exn + 'c"
  alt_model_eval :: "event list \<Rightarrow> 'c \<Rightarrow> exn + 'c"
  alt_model_to_mps :: "event list \<Rightarrow> 'c \<Rightarrow> exn + 'c"
  image_open_rgb :: "event list \<Rightarrow> 8 word list \<Rightarrow> exn + 'i"
  blip_processor_call :: "event list \<Rightarrow> 'p \<Rightarrow> 'i \<Rightarrow> exn + (string \<times> 'x) list"
  tensor_to_mps :: "event list \<Rightarrow> 'x \<Rightarrow> exn + 'x"
  blip_generate :: "event list \<Rightarrow> 'm \<Rightarrow> (string \<times> 'x) list \<Rightarrow> exn + 'x"
  blip_decode_first :: "event list \<Rightarrow> 'p \<Rightarrow> 'x \<Rightarrow> exn + string"
  tokenizer_call :: "event list \<Rightarrow> 't \<Rightarrow> string \<Rightarrow> exn + (string \<times> 'x) list"
  first_row_len :: "event list \<Rightarrow> 'x \<Rightarrow> exn + int"
  eos_token_id :: "event list \<Rightarrow> 't \<Rightarrow> exn + int"
  alt_generate :: "event list \<Rightarrow> 'c \<Rightarrow> 'x \<Rightarrow> 'x \<Rightarrow> int \<Rightarrow> int \<Rightarrow> exn + 'x"
  alt_decode_first :: "event list \<Rightarrow> 't \<Rightarrow> 'x \<Rightarrow> exn + string"

subsection \<open>Statements: a computation takes the globals and returns a result or an exception\<close>

type_synonym ('a, 's) prog = "'s \<Rightarrow> (exn + 'a) \<times> 's"

definition ok :: "'a \<Rightarrow> ('a, 's) prog" where
  "ok x s = (Inr x, s)"

definition raise :: "exn \<Rightarrow> ('a, 's) prog" where
  "raise e s = (Inl e, s)"

definition bnd :: "('a, 's) prog \<Rightarrow> ('a \<Rightarrow> ('b, 's) prog) \<Rightarrow> ('b, 's) prog" where
  "bnd m f s = (case m s of (Inl e, s') \<Rightarrow> (Inl e, s') | (Inr x, s') \<Rightarrow> f x s')"

text \<open>\<^verbatim>\<open>try: m  except Exception as exc: h exc\<close>. The globals keep what \<open>m\<close> did to them
  before it raised.\<close>

definition try_except :: "('a, 's) prog \<Rightarrow> (exn \<Rightarrow> ('a, 's) prog) \<Rightarrow> ('a, 's) prog" where
  "try_except m h s = (case m s of (Inl e, s') \<Rightarrow> h e s' | (Inr x, s') \<Rightarrow> (Inr x, s'))"

text \<open>A call into the runtime: the event is appended to the trace, the result is the
  runtime's.\<close>

definition ext :: "event \<Rightarrow> (event list \<Rightarrow> exn + 'a) \<Rightarrow> ('a, ('p, 'm, 't, 'c) globals) prog" where
  "ext ev f s = (f (trace s), s\<lparr>trace := trace s @ [ev]\<rparr>)"

definition assign :: "('s \<Rightarrow> 's) \<Rightarrow> (unit, 's) prog" where
  "assign upd s = (Inr (), upd s)"

text \<open>Reading a global in order to call it, or to take an attribute of it: on \<^verbatim>\<open>None\<close>
  the interpreter raises a TypeError, or an AttributeError that names the attribute.\<close>

definition callee :: "('s \<Rightarrow> 'a option) \<Rightarrow> ('a, 's) prog" where
  "callee g s =
     (case g s of
        None \<Rightarrow> (Inl (TypeError ([CHR 0x27] @ ''NoneType'' @ [CHR 0x27] @ '' object is not callable'')), s)
      | Some v \<Rightarrow> (Inr v, s))"

definition receiver :: "('s \<Rightarrow> 'a option) \<Rightarrow> string \<Rightarrow> ('a, 's) prog" where
  "receiver g attr s =
     (case g s of
        None \<Rightarrow>
          (Inl (AttributeError ([CHR 0x27] @ ''NoneType'' @ [CHR 0x27] @ '' object has no attribute ''
                                 @ [CHR 0x27] @ attr @ [CHR 0x27])), s)
      | Some v \<Rightarrow> (Inr v, s))"

text \<open>\<^verbatim>\<open>d[key]\<close> on a dict given as an association list.\<close>

definition getitem :: "(string \<times> 'x) list \<Rightarrow> string \<Rightarrow> ('x, 's) prog" where
  "getitem d key s = (case map_of d key of None \<Rightarrow> (Inl (KeyError key), s) | Some v \<Rightarrow> (Inr v, s))"

text \<open>\<^verbatim>\<open>{k: v.to("mps") for k, v in inputs.items()}\<close>.\<close>

fun inputs_to_mps ::
  "('p, 'm, 't, 'c, 'i, 'x) runtime \<Rightarrow> (string \<times> 'x) list
     \<Rightarrow> ((string \<times> 'x) list, ('p, 'm, 't, 'c) globals) prog" where
  "inputs_to_mps rt [] = ok []"
| "inputs_to_mps rt ((k, v) # rest) =
     bnd (ext Tensor_to_mps (\<lambda>h. tensor_to_mps rt h v)) (\<lambda>v'.
     bnd (inputs_to_mps rt rest) (\<lambda>rest'.
     ok ((k, v') # rest')))"

section \<open>Loading the models (lines 50--110)\<close>

text \<open>A block of statements, run in order; the first exception ends it.\<close>

fun run_stmts :: "(unit, 's) prog list \<Rightarrow> (unit, 's) prog" where
  "run_stmts [] = ok ()"
| "run_stmts (b # bs) = bnd b (\<lambda>_. run_stmts bs)"

definition blip_ready :: "('p, 'm, 't, 'c) globals \<Rightarrow> bool" where
  "blip_ready s \<longleftrightarrow> BLIP_MODEL s \<noteq> None \<and> BLIP_PROCESSOR s \<noteq> None"

definition alt_ready :: "('p, 'm, 't, 'c) globals \<Rightarrow> bool" where
  "alt_ready s \<longleftrightarrow> ALT_MODEL s \<noteq> None \<and> ALT_TOKENIZER s \<noteq> None"

text \<open>The statements of the \<^verbatim>\<open>try\<close> block of \<^verbatim>\<open>load_blip_model\<close>: line 62, line 63,
  lines 66--70 and line 72. \<^verbatim>\<open>to\<close> and \<^verbatim>\<open>eval\<close> change the model object in place; the
  global then holds the changed model.\<close>

definition load_blip_model_stmts ::
  "('p, 'm, 't, 'c, 'i, 'x) runtime \<Rightarrow> config \<Rightarrow> (unit, ('p, 'm, 't, 'c) globals) prog list" where
  "load_blip_model_stmts rt cfg =
     [ bnd (ext BlipProcessor_load (\<lambda>h. BlipProcessor_from_pretrained rt h (BLIP_MODEL_NAME cfg))) (\<lambda>p.
       assign (\<lambda>s. s\<lparr>BLIP_PROCESSOR := Some p\<rparr>)),
       bnd (ext BlipModel_load (\<lambda>h. BlipModel_from_pretrained rt h (BLIP_MODEL_NAME cfg))) (\<lambda>m.
       assign (\<lambda>s. s\<lparr>BLIP_MODEL := Some m\<rparr>)),
       bnd (ext Mps_query (mps_is_available rt)) (\<lambda>mps.
       if mps
       then bnd (receiver BLIP_MODEL ''to'') (\<lambda>m.
            bnd (ext Model_to_mps (\<lambda>h. blip_model_to_mps rt h m)) (\<lambda>m'.
            assign (\<lambda>s. s\<lparr>BLIP_MODEL := Some m'\<rparr>)))
       else ok ()),
       bnd (receiver BLIP_MODEL ''eval'') (\<lambda>m.
       bnd (ext Model_eval (\<lambda>h. blip_model_eval rt h m)) (\<lambda>m'.
       assign (\<lambda>s. s\<lparr>BLIP_MODEL := Some m'\<rparr>))) ]"

definition load_blip_model_try ::
  "('p, 'm, 't, 'c, 'i, 'x) runtime \<Rightarrow> config \<Rightarrow> (unit, ('p, 'm, 't, 'c) globals) prog" where
  "load_blip_model_try rt cfg = run_stmts (load_blip_model_stmts rt cfg)"

text \<open>Line 77, the exception that the handler of \<^verbatim>\<open>load_blip_model\<close> raises.\<close>

definition load_blip_model_except :: "exn \<Rightarrow> exn" where
  "load_blip_model_except exc = RuntimeError (''BLIP model load failed: '' @ exn_str exc)"

text \<open>\<^verbatim>\<open>load_blip_model\<close>: the check before the lock, the same check under the lock, then
  the load; any exception of the load is re-raised as a RuntimeError.\<close>

definition load_blip_model ::
  "('p, 'm, 't, 'c, 'i, 'x) runtime \<Rightarrow> config \<Rightarrow> (unit, ('p, 'm, 't, 'c) globals) prog" where
  "load_blip_model rt cfg s =
     (if BLIP_MODEL s \<noteq> None \<and> BLIP_PROCESSOR s \<noteq> None then ok () s
      else if BLIP_MODEL s \<noteq> None \<and> BLIP_PROCESSOR s \<noteq> None then ok () s
      else try_except (load_blip_model_try rt cfg)
             (\<lambda>exc. raise (load_blip_model_except exc)) s)"

text \<open>The statements of the outer \<^verbatim>\<open>try\<close> block of \<^verbatim>\<open>load_alt_refinement_model\<close>: lines
  91, 92, 94, 95 and the inner \<^verbatim>\<open>try\<close> statement of lines 98--105, whose handler only
  logs.\<close>

definition load_alt_refinement_model_stmts ::
  "('p, 'm, 't, 'c, 'i, 'x) runtime \<Rightarrow> config \<Rightarrow> (unit, ('p, 'm, 't, 'c) globals) prog list" where
  "load_alt_refinement_model_stmts rt cfg =
     [ bnd (ext Tokenizer_load (\<lambda>h. AutoTokenizer_from_pretrained rt h (ALT_MODEL_NAME cfg))) (\<lambda>t.
       assign (\<lambda>s. s\<lparr>ALT_TOKENIZER := Some t\<rparr>)),
       bnd (receiver ALT_TOKENIZER ''eos_token'') (\<lambda>t.
       bnd (ext Set_pad_token (\<lambda>h. tokenizer_pad_to_eos rt h t)) (\<lambda>t'.
       assign (\<lambda>s. s\<lparr>ALT_TOKENIZER := Some t'\<rparr>))),
       bnd (ext CausalLM_load (\<lambda>h. AutoModel_from_pretrained rt h (ALT_MODEL_NAME cfg))) (\<lambda>m.
       assign (\<lambda>s. s\<lparr>ALT_MODEL := Some m\<rparr>)),
       bnd (receiver ALT_MODEL ''eval'') (\<lambda>m.
       bnd (ext Model_eval (\<lambda>h. alt_model_eval rt h m)) (\<lambda>m'.
       assign (\<lambda>s. s\<lparr>ALT_MODEL := Some m'\<rparr>))),
       try_except
         (bnd (ext Mps_query (mps_is_available rt)) (\<lambda>mps.
          if mps
          then bnd (receiver ALT_MODEL ''to'') (\<lambda>m.
               bnd (ext Model_to_mps (\<lambda>h. alt_model_to_mps rt h m)) (\<lambda>m'.
               assign (\<lambda>s. s\<lparr>ALT_MODEL := Some m'\<rparr>)))
          else ok ()))
         (\<lambda>e. ok ()) ]"

definition load_alt_refinement_model_try ::
  "('p, 'm, 't, 'c, 'i, 'x) runtime \<Rightarrow> config \<Rightarrow> (unit, ('p, 'm, 't, 'c) globals) prog" where
  "load_alt_refinement_model_try rt cfg = run_stmts (load_alt_refinement_model_stmts rt cfg)"

text \<open>Line 110, the exception that the handler of \<^verbatim>\<open>load_alt_refinement_model\<close>
  raises.\<close>

definition load_alt_refinement_model_except :: "exn \<Rightarrow> exn" where
  "load_alt_refinement_model_except exc =
     RuntimeError (''alt refinement model load failed: '' @ exn_str exc)"

definition load_alt_refinement_model ::
  "('p, 'm, 't, 'c, 'i, 'x) runtime \<Rightarrow> config \<Rightarrow> (unit, ('p, 'm, 't, 'c) globals) prog" where
  "load_alt_refinement_model rt cfg s =
     (if ALT_MODEL s \<noteq> None \<and> ALT_TOKENIZER s \<noteq> None then ok () s
      else if ALT_MODEL s \<noteq> None \<and> ALT_TOKENIZER s \<noteq> None then ok () s
      else try_except (load_alt_refinement_model_try rt cfg)
             (\<lambda>exc. raise (load_alt_refinement_model_except exc)) s)"

section \<open>The two stages and the orchestrator (lines 198--307)\<close>

text \<open>Line 206, the f-string.\<close>

definition prompt_of :: "string \<Rightarrow> string" where
  "prompt_of caption_text =
     ''Create SEO-optimized alt text (8-12 words): '' @ caption_text @ [CHR 0x0A] @ ''Alt:''"

text \<open>Lines 207--224 of \<^verbatim>\<open>refine_alt_text\<close>: from the prompt to the decoded generation.
  The arguments of \<^verbatim>\<open>generate\<close> are evaluated in the order of the source.\<close>

definition refine_alt_text_generate ::
  "('p, 'm, 't, 'c, 'i, 'x) runtime \<Rightarrow> config \<Rightarrow> string \<Rightarrow> (string, ('p, 'm, 't, 'c) globals) prog" where
  "refine_alt_text_generate rt cfg prompt =
     bnd (callee ALT_TOKENIZER) (\<lambda>t.
     bnd (ext Tokenize (\<lambda>h. tokenizer_call rt h t prompt)) (\<lambda>inputs0.
     bnd (ext Mps_query (mps_is_available rt)) (\<lambda>mps.
     bnd (if mps then inputs_to_mps rt inputs0 else ok inputs0) (\<lambda>inputs.
     bnd (receiver ALT_MODEL ''generate'') (\<lambda>m.
     bnd (getitem inputs ''input_ids'') (\<lambda>input_ids.
     bnd (getitem inputs ''attention_mask'') (\<lambda>attention_mask.
     bnd (getitem inputs ''input_ids'') (\<lambda>ids.
     bnd (ext Tensor_len (\<lambda>h. first_row_len rt h ids)) (\<lambda>n.
     bnd (receiver ALT_TOKENIZER ''eos_token_id'') (\<lambda>t.
     bnd (ext Eos_token_id (\<lambda>h. eos_token_id rt h t)) (\<lambda>pad.
     bnd (ext Alt_generate (\<lambda>h. alt_generate rt h m input_ids attention_mask
                                  (n + ALT_REFINEMENT_MAX_LENGTH cfg) pad)) (\<lambda>outputs.
     bnd (receiver ALT_TOKENIZER ''decode'') (\<lambda>t.
     ext Alt_decode (\<lambda>h. alt_decode_first rt h t outputs))))))))))))))"

text \<open>The \<^verbatim>\<open>try\<close> block of \<^verbatim>\<open>refine_alt_text\<close>, lines 206--245.\<close>

definition refine_alt_text_try ::
  "('p, 'm, 't, 'c, 'i, 'x) runtime \<Rightarrow> config \<Rightarrow> string \<Rightarrow> (string, ('p, 'm, 't, 'c) globals) prog" where
  "refine_alt_text_try rt cfg caption_text =
     bnd (refine_alt_text_generate rt cfg (prompt_of caption_text)) (\<lambda>generated_text.
     ok (refine_alt_text_clean caption_text
           (refine_alt_text_extract (prompt_of caption_text) generated_text)))"

text \<open>\<^verbatim>\<open>refine_alt_text\<close>: the load is called before the \<^verbatim>\<open>try\<close> statement.\<close>

definition refine_alt_text ::
  "('p, 'm, 't, 'c, 'i, 'x) runtime \<Rightarrow> config \<Rightarrow> string \<Rightarrow> (string, ('p, 'm, 't, 'c) globals) prog" where
  "refine_alt_text rt cfg caption_text =
     bnd (load_alt_refinement_model rt cfg) (\<lambda>_.
     try_except (refine_alt_text_try rt cfg caption_text)
       (\<lambda>exc. ok (refine_alt_text_fallback caption_text)))"

text \<open>The \<^verbatim>\<open>try\<close> block of \<^verbatim>\<open>infer_caption_from_data\<close>, lines 262--277.\<close>

definition infer_caption_from_data_try ::
  "('p, 'm, 't, 'c, 'i, 'x) runtime \<Rightarrow> 8 word list \<Rightarrow> (string, ('p, 'm, 't, 'c) globals) prog" where
  "infer_caption_from_data_try rt image_data =
     bnd (ext Image_open (\<lambda>h. image_open_rgb rt h image_data)) (\<lambda>image.
     bnd (callee BLIP_PROCESSOR) (\<lambda>p.
     bnd (ext Blip_preprocess (\<lambda>h. blip_processor_call rt h p image)) (\<lambda>inputs0.
     bnd (ext Mps_query (mps_is_available rt)) (\<lambda>mps.
     bnd (if mps then inputs_to_mps rt inputs0 else ok inputs0) (\<lambda>inputs.
     bnd (receiver BLIP_MODEL ''generate'') (\<lambda>m.
     bnd (ext Blip_generate (\<lambda>h. blip_generate rt h m inputs)) (\<lambda>output.
     bnd (receiver BLIP_PROCESSOR ''decode'') (\<lambda>p.
     ext Blip_decode (\<lambda>h. blip_decode_first rt h p output)))))))))"

text \<open>\<^verbatim>\<open>infer_caption_from_data\<close>; the file name and the content type are only logged.\<close>

definition infer_caption_from_data ::
  "('p, 'm, 't, 'c, 'i, 'x) runtime \<Rightarrow> config \<Rightarrow> 8 word list \<Rightarrow> string option \<Rightarrow> string option
     \<Rightarrow> (string, ('p, 'm, 't, 'c) globals) prog" where
  "infer_caption_from_data rt cfg image_data filename content_type =
     bnd (load_blip_model rt cfg) (\<lambda>_.
     try_except (infer_caption_from_data_try rt image_data)
       (\<lambda>e. ok ''A beautiful image''))"

text \<open>\<^verbatim>\<open>generate_alt_from_caption\<close>; \<^verbatim>\<open>asyncio.to_thread\<close> hands the call to a worker
  thread and gives its result or its exception back.\<close>

definition generate_alt_from_caption ::
  "('p, 'm, 't, 'c, 'i, 'x) runtime \<Rightarrow> config \<Rightarrow> string \<Rightarrow> (string, ('p, 'm, 't, 'c) globals) prog" where
  "generate_alt_from_caption rt cfg caption_text =
     try_except (refine_alt_text rt cfg caption_text) (\<lambda>exc. ok caption_text)"

section \<open>The endpoint POST /alt (lines 338--371)\<close>

record upload_file =
  content_type :: "string option"
  filename :: "string option"
  file_data :: "8 word list"

text \<open>The handler; \<open>upload\<close> is the source's parameter \<^verbatim>\<open>image\<close>, whose body the
  handler reads first. A JSON object with string values is an association list. An
  \<open>HTTPException\<close> that leaves the handler is the framework's 400 response.\<close>

definition alt_only ::
  "('p, 'm, 't, 'c, 'i, 'x) runtime \<Rightarrow> config \<Rightarrow> upload_file \<Rightarrow> bool \<Rightarrow> bool \<Rightarrow> bool
     \<Rightarrow> ((string \<times> string) list, ('p, 'm, 't, 'c) globals) prog" where
  "alt_only rt cfg upload raw debug include_caption =
     (let image_data = file_data upload in
      if (case content_type upload of None \<Rightarrow> True
          | Some ct \<Rightarrow> ct = [] \<or> \<not> prefix ''image/'' ct)
      then raise (HTTPException 400 ''file must be an image'')
      else if image_data = [] then raise (HTTPException 400 ''empty file'')
      else
        bnd (infer_caption_from_data rt cfg image_data (filename upload) (content_type upload))
          (\<lambda>caption_text.
        bnd (generate_alt_from_caption rt cfg caption_text) (\<lambda>alt_text.
        ok (if raw \<or> debug then [(''alt'', alt_text), (''raw'', alt_text)]
            else if include_caption then [(''alt'', alt_text), (''caption'', caption_text)]
            else [(''alt'', alt_text)]))))"

section \<open>Two concurrent callers of a load function\<close>

text \<open>
  Both load functions have the same shape: a check of the two globals before the lock, the
  lock, the same check under the lock, the statements of the \<^verbatim>\<open>try\<close> block, and the
  release of the lock when the \<^verbatim>\<open>with\<close> block is left, by \<^verbatim>\<open>return\<close>, by its end or by
  the exception of the handler. A loader holds what differs: the two tests
  \<^verbatim>\<open>is not None\<close>, the statements, and the exception that the handler raises.
\<close>

record 's loader =
  model_set :: "'s \<Rightarrow> bool"
  handle_set :: "'s \<Rightarrow> bool"
  stmts :: "(unit, 's) prog list"
  reraise :: "exn \<Rightarrow> exn"

definition blip_loader ::
  "('p, 'm, 't, 'c, 'i, 'x) runtime \<Rightarrow> config \<Rightarrow> ('p, 'm, 't, 'c) globals loader" where
  "blip_loader rt cfg =
     \<lparr> model_set = (\<lambda>s. BLIP_MODEL s \<noteq> None),
       handle_set = (\<lambda>s. BLIP_PROCESSOR s \<noteq> None),
       stmts = load_blip_model_stmts rt cfg,
       reraise = load_blip_model_except \<rparr>"

definition alt_loader ::
  "('p, 'm, 't, 'c, 'i, 'x) runtime \<Rightarrow> config \<Rightarrow> ('p, 'm, 't, 'c) globals loader" where
  "alt_loader rt cfg =
     \<lparr> model_set = (\<lambda>s. ALT_MODEL s \<noteq> None),
       handle_set = (\<lambda>s. ALT_TOKENIZER s \<noteq> None),
       stmts = load_alt_refinement_model_stmts rt cfg,
       reraise = load_alt_refinement_model_except \<rparr>"

definition ready :: "'s loader \<Rightarrow> 's \<Rightarrow> bool" where
  "ready L g \<longleftrightarrow> model_set L g \<and> handle_set L g"

text \<open>The load function as one sequential call, written once for any loader; it is
  \<^verbatim>\<open>load_blip_model\<close> and \<^verbatim>\<open>load_alt_refinement_model\<close> at the two loaders above.\<close>

definition load_with :: "'s loader \<Rightarrow> (unit, 's) prog" where
  "load_with L s =
     (if model_set L s \<and> handle_set L s then ok () s
      else if model_set L s \<and> handle_set L s then ok () s
      else try_except (run_stmts (stmts L)) (\<lambda>exc. raise (reraise L exc)) s)"

text \<open>
  Where a caller stands in the load function. The interpreter may switch threads between
  any two of these points; the two operands of a check are read one after the other.
  \<open>Body i\<close>: statement \<open>i\<close> of the \<^verbatim>\<open>try\<close> block is next. \<open>Release r\<close>: the \<^verbatim>\<open>with\<close>
  block is being left, to return (\<open>None\<close>) or to raise. \<open>Finished r\<close>: the call is over.
\<close>

datatype pc =
    Check1_model
  | Check1_handle
  | Acquire
  | Check2_model
  | Check2_handle
  | Body nat
  | Release "exn option"
  | Finished "exn option"

datatype caller = Caller_A | Caller_B

record 's system =
  shared :: 's
  lock :: "caller option"
  pc_of :: "caller \<Rightarrow> pc"

definition start :: "'s \<Rightarrow> 's system" where
  "start g = \<lparr> shared = g, lock = None, pc_of = (\<lambda>t. Check1_model) \<rparr>"

text \<open>One step of caller \<open>t\<close>; \<open>None\<close> when it cannot move: its call is over, or it waits
  for the lock.\<close>

definition thread_step :: "'s loader \<Rightarrow> caller \<Rightarrow> 's system \<Rightarrow> 's system option" where
  "thread_step L t c =
     (case pc_of c t of
        Check1_model \<Rightarrow>
          Some (c\<lparr>pc_of := (pc_of c)(t := if model_set L (shared c) then Check1_handle else Acquire)\<rparr>)
      | Check1_handle \<Rightarrow>
          Some (c\<lparr>pc_of := (pc_of c)(t := if handle_set L (shared c) then Finished None else Acquire)\<rparr>)
      | Acquire \<Rightarrow>
          (if lock c = None then Some (c\<lparr>lock := Some t, pc_of := (pc_of c)(t := Check2_model)\<rparr>)
           else None)
      | Check2_model \<Rightarrow>
          Some (c\<lparr>pc_of := (pc_of c)(t := if model_set L (shared c) then Check2_handle else Body 0)\<rparr>)
      | Check2_handle \<Rightarrow>
          Some (c\<lparr>pc_of := (pc_of c)(t := if handle_set L (shared c) then Release None else Body 0)\<rparr>)
      | Body i \<Rightarrow>
          (if i < length (stmts L)
           then (case (stmts L ! i) (shared c) of
                   (Inr u, g) \<Rightarrow> Some (c\<lparr>shared := g, pc_of := (pc_of c)(t := Body (Suc i))\<rparr>)
                 | (Inl e, g) \<Rightarrow>
                     Some (c\<lparr>shared := g, pc_of := (pc_of c)(t := Release (Some (reraise L e)))\<rparr>))
           else Some (c\<lparr>pc_of := (pc_of c)(t := Release None)\<rparr>))
      | Release r \<Rightarrow> Some (c\<lparr>lock := None, pc_of := (pc_of c)(t := Finished r)\<rparr>)
      | Finished r \<Rightarrow> None)"

text \<open>A schedule names the caller that moves at each step. It is refused (\<open>None\<close>) when it
  asks a caller to move that cannot.\<close>

fun run_schedule :: "'s loader \<Rightarrow> caller list \<Rightarrow> 's system \<Rightarrow> 's system option" where
  "run_schedule L [] c = Some c"
| "run_schedule L (t # ts) c =
     (case thread_step L t c of None \<Rightarrow> None | Some c' \<Rightarrow> run_schedule L ts c')"

fun finished :: "pc \<Rightarrow> bool" where
  "finished (Finished r) = True"
| "finished p = False"

definition all_finished :: "'s system \<Rightarrow> bool" where
  "all_finished c \<longleftrightarrow> finished (pc_of c Caller_A) \<and> finished (pc_of c Caller_B)"

section \<open>Test doubles\<close>

text \<open>A runtime in which every call succeeds: the captioner decodes to \<open>cap\<close>, the refiner
  to \<open>gen\<close>; no accelerator. Handles, images and tensors carry no information.\<close>

definition fake_runtime :: "string \<Rightarrow> string \<Rightarrow> (unit, unit, unit, unit, unit, unit) runtime" where
  "fake_runtime cap gen =
     \<lparr> mps_is_available = (\<lambda>h. Inr False),
       BlipProcessor_from_pretrained = (\<lambda>h n. Inr ()),
       BlipModel_from_pretrained = (\<lambda>h n. Inr ()),
       blip_model_to_mps = (\<lambda>h m. Inr m),
       blip_model_eval = (\<lambda>h m. Inr m),
       AutoTokenizer_from_pretrained = (\<lambda>h n. Inr ()),
       tokenizer_pad_to_eos = (\<lambda>h t. Inr t),
       AutoModel_from_pretrained = (\<lambda>h n. Inr ()),
       alt_model_eval = (\<lambda>h m. Inr m),
       alt_model_to_mps = (\<lambda>h m. Inr m),
       image_open_rgb = (\<lambda>h d. Inr ()),
       blip_processor_call = (\<lambda>h p i. Inr [(''pixel_values'', ())]),
       tensor_to_mps = (\<lambda>h x. Inr x),
       blip_generate = (\<lambda>h m i. Inr ()),
       blip_decode_first = (\<lambda>h p x. Inr cap),
       tokenizer_call = (\<lambda>h t p. Inr [(''input_ids'', ()), (''attention_mask'', ())]),
       first_row_len = (\<lambda>h x. Inr 16),
       eos_token_id = (\<lambda>h t. Inr 50256),
       alt_generate = (\<lambda>h m i a n p. Inr ()),
       alt_decode_first = (\<lambda>h t x. Inr gen) \<rparr>"

definition default_config :: config where
  "default_config =
     \<lparr> BLIP_MODEL_NAME = ''Salesforce/blip-image-captioning-base'',
       ALT_MODEL_NAME = ''distilgpt2'',
       ALT_REFINEMENT_MAX_LENGTH = 30 \<rparr>"

text \<open>The globals when the module has just been imported.\<close>

definition initial_globals :: "(unit, unit, unit, unit) globals" where
  "initial_globals =
     \<lparr> BLIP_MODEL = None, BLIP_PROCESSOR = None, ALT_MODEL = None, ALT_TOKENIZER = None,
       trace = [] \<rparr>"

text \<open>The same runtime without network: the tokenizer cannot be fetched.\<close>

definition offline_runtime :: "(unit, unit, unit, unit, unit, unit) runtime" where
  "offline_runtime =
     (fake_runtime ''a cat'' [])
       \<lparr>AutoTokenizer_from_pretrained := (\<lambda>h n. Inl (LibraryError ''offline''))\<rparr>"

text \<open>A runtime whose language model fails while generating.\<close>

definition failing_generation_runtime :: "(unit, unit, unit, unit, unit, unit) runtime" where
  "failing_generation_runtime =
     (fake_runtime ''a cat'' [])
       \<lparr>alt_generate := (\<lambda>h m i a n p. Inl (LibraryError ''out of memory''))\<rparr>"

text \<open>A runtime that cannot decode the uploaded bytes.\<close>

definition corrupt_image_runtime :: "(unit, unit, unit, unit, unit, unit) runtime" where
  "corrupt_image_runtime =
     (fake_runtime ''a cat'' [])
       \<lparr>image_open_rgb := (\<lambda>h d. Inl (LibraryError ''cannot identify image file''))\<rparr>"



definition long_caption :: string where
  "long_caption = ''a small brown dog runs over a field of tall green grass''"

definition cat_caption :: string where
  "cat_caption = ''a cat sitting on a windowsill looking outside''"

definition cat_generation :: string where
  "cat_generation = ''Alt: a cat sitting on a windowsill looking outside''"



definition png_upload :: upload_file where
  "png_upload =
     \<lparr> content_type = Some ''image/png'', filename = Some ''cat.png'',
       file_data = [137, 80, 78, 71] \<rparr>"

definition text_upload :: upload_file where
  "text_upload =
     \<lparr> content_type = Some ''text/plain'', filename = Some ''notes.txt'',
       file_data = [104, 105] \<rparr>"

definition untyped_upload :: upload_file where
  "untyped_upload = \<lparr> content_type = None, filename = None, file_data = [104, 105] \<rparr>"

definition empty_upload :: upload_file where
  "empty_upload =
     \<lparr> content_type = Some ''image/png'', filename = Some ''cat.png'', file_data = [] \<rparr>"

text \<open>Two schedules of two callers, and the globals after one load of each model with the
  fake runtime. In the first schedule the second caller arrives while the first one is
  between lines 63 and 66 and leaves by the check before the lock; in the second it waits
  for the lock and leaves by the check under the lock.\<close>

definition fast_path_schedule :: "caller list" where
  "fast_path_schedule =
     [Caller_A, Caller_A, Caller_A, Caller_A, Caller_A, Caller_B, Caller_B,
      Caller_A, Caller_A, Caller_A, Caller_A]"

definition waiting_schedule :: "caller list" where
  "waiting_schedule =
     [Caller_A, Caller_B, Caller_A, Caller_A, Caller_A, Caller_A, Caller_A, Caller_A,
      Caller_A, Caller_A, Caller_A, Caller_B, Caller_B, Caller_B, Caller_B]"

definition loaded_blip_globals :: "(unit, unit, unit, unit) globals" where
  "loaded_blip_globals =
     \<lparr> BLIP_MODEL = Some (), BLIP_PROCESSOR = Some (), ALT_MODEL = None, ALT_TOKENIZER = None,
       trace = [BlipProcessor_load, BlipModel_load, Mps_query, Model_eval] \<rparr>"

definition loaded_alt_globals :: "(unit, unit, unit, unit) globals" where
  "loaded_alt_globals =
     \<lparr> BLIP_MODEL = None, BLIP_PROCESSOR = None, ALT_MODEL = Some (), ALT_TOKENIZER = Some (),
       trace = [Tokenizer_load, Set_pad_token, CausalLM_load, Model_eval, Mps_query] \<rparr>"

section \<open>Auxiliary notions for the proofs\<close>






text \<open>The callers that hold the lock are those between the acquisition and the release.\<close>

fun in_cs :: "pc \<Rightarrow> bool" where
  "in_cs Check2_model = True"
| "in_cs Check2_handle = True"
| "in_cs (Body i) = True"
| "in_cs (Release r) = True"
| "in_cs p = False"

text \<open>No statement of the loader sets a global back to \<^verbatim>\<open>None\<close>.\<close>

definition monotone_loader :: "'s loader \<Rightarrow> bool" where
  "monotone_loader L \<longleftrightarrow>
     (\<forall>b\<in>set (stmts L). \<forall>g. (model_set L g \<longrightarrow> model_set L (snd (b g))) \<and>
                              (handle_set L g \<longrightarrow> handle_set L (snd (b g))))"

text \<open>The invariant of the interleavings that start at the globals \<open>g0\<close>, where \<open>g1\<close> are the
  globals after one sequential call: the lock is held exactly inside the \<^verbatim>\<open>with\<close> block;
  what a caller has seen set is still set; nobody has raised; the caller in the
  \<^verbatim>\<open>try\<close> block has run its first statements from \<open>g0\<close>; and when nobody is in
  the block the globals are \<open>g0\<close> or \<open>g1\<close>.\<close>

definition load_inv :: "'s loader \<Rightarrow> 's \<Rightarrow> 's \<Rightarrow> 's system \<Rightarrow> bool" where
  "load_inv L g0 g1 c \<longleftrightarrow>
     (\<forall>t. in_cs (pc_of c t) \<longleftrightarrow> lock c = Some t) \<and>
     (\<forall>t. pc_of c t = Check1_handle \<or> pc_of c t = Check2_handle \<longrightarrow> model_set L (shared c)) \<and>
     (\<forall>t. pc_of c t = Finished None \<or> pc_of c t = Release None \<longrightarrow> ready L (shared c)) \<and>
     (\<forall>t e. pc_of c t \<noteq> Release (Some e) \<and> pc_of c t \<noteq> Finished (Some e)) \<and>
     (\<forall>t i. pc_of c t = Body i \<longrightarrow>
        \<not> ready L g0 \<and> i \<le> length (stmts L) \<and>
        run_stmts (take i (stmts L)) g0 = (Inr (), shared c)) \<and>
     ((\<forall>t i. pc_of c t \<noteq> Body i) \<longrightarrow>
        shared c = (if ready L (shared c) \<and> \<not> ready L g0 then g1 else g0))"

text \<open>One sequential call from \<open>g0\<close> returns with the globals \<open>g1\<close>.\<close>

definition seq_ok :: "'s loader \<Rightarrow> 's \<Rightarrow> 's \<Rightarrow> bool" where
  "seq_ok L g0 g1 \<longleftrightarrow>
     (if ready L g0 then g1 = g0
      else run_stmts (stmts L) g0 = (Inr (), g1) \<and> ready L g1)"

text \<open>The number of steps a caller has left, at most.\<close>

fun rank :: "nat \<Rightarrow> pc \<Rightarrow> nat" where
  "rank n Check1_model = n + 8"
| "rank n Check1_handle = n + 7"
| "rank n Acquire = n + 6"
| "rank n Check2_model = n + 5"
| "rank n Check2_handle = n + 4"
| "rank n (Body i) = n - i + 3"
| "rank n (Release r) = 1"
| "rank n (Finished r) = 0"

definition remaining :: "'s loader \<Rightarrow> 's system \<Rightarrow> nat" where
  "remaining L c = rank (length (stmts L)) (pc_of c Caller_A) + rank (length (stmts L)) (pc_of c Caller_B)"

section \<open>Facts about the string operations\<close>

subsection \<open>Words\<close>
lemma py_split_Nil [simp]: "py_split [] = []"
  by (simp add: py_split.simps)




















lemma drop_while_end_Nil [simp]: "drop_while_end Q [] = []"
  by (simp add: drop_while_end_def)
























section \<open>Facts about the stages\<close>

lemmas prog_defs = bnd_def ok_def raise_def try_except_def ext_def assign_def receiver_def
  callee_def getitem_def

lemmas run_defs = refine_alt_text_def refine_alt_text_try_def refine_alt_text_generate_def
  load_alt_refinement_model_def load_alt_refinement_model_try_def
  load_alt_refinement_model_stmts_def load_alt_refinement_model_except_def
  load_blip_model_def load_blip_model_try_def load_blip_model_stmts_def
  load_blip_model_except_def infer_caption_from_data_def
  infer_caption_from_data_try_def generate_alt_from_caption_def alt_only_def
  bnd_def ok_def raise_def try_except_def ext_def assign_def receiver_def callee_def getitem_def
  fake_runtime_def default_config_def initial_globals_def offline_runtime_def
  failing_generation_runtime_def corrupt_image_runtime_def

lemmas string_defs = refine_alt_text_extract_def refine_alt_text_clean_def
  refine_alt_text_fallback_def strip_quotes_def py_strip_chars_def py_strip_def
  drop_while_end_def prompt_of_def is_space_def py_split.simps Let_def

lemma generate_alt_from_caption_returns:
  "\<exists>a. fst (generate_alt_from_caption rt cfg c s) = Inr a"
  by (auto simp: generate_alt_from_caption_def try_except_def ok_def split: prod.splits sum.splits)

lemma load_alt_refinement_model_raises:
  "fst (load_alt_refinement_model rt cfg s) = Inl e \<Longrightarrow> \<exists>m. e = RuntimeError m"
  by (auto simp: load_alt_refinement_model_def load_alt_refinement_model_except_def
      try_except_def ok_def raise_def split: if_splits prod.splits sum.splits)








section \<open>The claims\<close>

subsection \<open>Refinement: what reaches the caller\<close>

text \<open>The load of the refinement model is called before the \<^verbatim>\<open>try\<close> statement of
  \<^verbatim>\<open>refine_alt_text\<close> (line 203), so its RuntimeError is not caught there: without
  network and with nothing loaded yet, the call raises.\<close>

theorem refine_alt_text_load_failure_propagates:
  "fst (refine_alt_text offline_runtime default_config long_caption initial_globals)
     = Inl (RuntimeError ''alt refinement model load failed: offline'')"
  by (simp add: run_defs)

text \<open>
  Claim C1, as the code has it. When the lazy load returns (the model is loaded already, or
  the load succeeds), \<^verbatim>\<open>refine_alt_text\<close> returns a string; and if anything in the
  \<^verbatim>\<open>try\<close> block raises (tokenizing, moving tensors, generating, decoding), the result is
  the first ten whitespace-delimited words of the caption joined by single blanks, or the
  caption itself when it has no word. An exception of the load itself is not caught: it
  reaches the caller, and it is a RuntimeError.
\<close>

theorem refine_alt_text_fallback_after_load:
  "(fst (load_alt_refinement_model rt cfg s) = Inr () \<longrightarrow>
      (\<exists>r. fst (refine_alt_text rt cfg c s) = Inr r) \<and>
      ((\<exists>e. fst (refine_alt_text_try rt cfg c (snd (load_alt_refinement_model rt cfg s))) = Inl e) \<longrightarrow>
         fst (refine_alt_text rt cfg c s)
           = Inr (if py_split c = [] then c else py_join '' '' (take 10 (py_split c))))) \<and>
   (\<forall>e. fst (load_alt_refinement_model rt cfg s) = Inl e \<longrightarrow>
      fst (refine_alt_text rt cfg c s) = Inl e \<and> (\<exists>m. e = RuntimeError m))"
proof -
  obtain r1 s1 where l: "load_alt_refinement_model rt cfg s = (r1, s1)"
    by (cases "load_alt_refinement_model rt cfg s")
  obtain r2 s2 where t: "refine_alt_text_try rt cfg c s1 = (r2, s2)"
    by (cases "refine_alt_text_try rt cfg c s1")
  have fb: "refine_alt_text_fallback c
              = (if py_split c = [] then c else py_join '' '' (take 10 (py_split c)))"
    by (simp add: refine_alt_text_fallback_def Let_def)
  show ?thesis
    using l t load_alt_refinement_model_raises [of rt cfg s]
    by (cases r1; cases r2) (auto simp: refine_alt_text_def bnd_def try_except_def ok_def fb)
qed

theorem refine_alt_text_fallback_after_load_witness:
  "fst (load_alt_refinement_model failing_generation_runtime default_config initial_globals)
     = Inr () \<and>
   fst (refine_alt_text_try failing_generation_runtime default_config long_caption
          (snd (load_alt_refinement_model failing_generation_runtime default_config initial_globals)))
     = Inl (LibraryError ''out of memory'') \<and>
   fst (refine_alt_text failing_generation_runtime default_config long_caption initial_globals)
     = Inr ''a small brown dog runs over a field of tall'' \<and>
   fst (load_alt_refinement_model offline_runtime default_config initial_globals)
     = Inl (RuntimeError ''alt refinement model load failed: offline'') \<and>
   fst (refine_alt_text offline_runtime default_config long_caption initial_globals)
     = Inl (RuntimeError ''alt refinement model load failed: offline'')"
proof -
  have l: "fst (load_alt_refinement_model failing_generation_runtime default_config initial_globals)
             = Inr ()"
    by (simp add: run_defs)
  have t: "fst (refine_alt_text_try failing_generation_runtime default_config long_caption
             (snd (load_alt_refinement_model failing_generation_runtime default_config initial_globals)))
             = Inl (LibraryError ''out of memory'')"
    by (simp add: run_defs)
  have o: "fst (load_alt_refinement_model offline_runtime default_config initial_globals)
             = Inl (RuntimeError ''alt refinement model load failed: offline'')"
    by (simp add: run_defs)
  have w: "py_split long_caption
             = [''a'', ''small'', ''brown'', ''dog'', ''runs'', ''over'', ''a'', ''field'', ''of'',
                ''tall'', ''green'', ''grass'']"
    by (simp add: long_caption_def py_split.simps is_space_def)
  have 1: "fst (refine_alt_text failing_generation_runtime default_config long_caption initial_globals)
             = Inr (if py_split long_caption = [] then long_caption
                    else py_join '' '' (take 10 (py_split long_caption)))"
    using refine_alt_text_fallback_after_load
            [of failing_generation_runtime default_config initial_globals long_caption] l t
    by simp
  have 2: "fst (refine_alt_text offline_runtime default_config long_caption initial_globals)
             = Inl (RuntimeError ''alt refinement model load failed: offline'')"
    using refine_alt_text_fallback_after_load
            [of offline_runtime default_config initial_globals long_caption] o
    by simp
  show ?thesis using l t o 1 2 by (simp add: w)
qed

subsection \<open>Refinement: the word-count policy\<close>










subsection \<open>Captioning and the orchestrator\<close>

text \<open>
  Claim C5. \<^verbatim>\<open>infer_caption_from_data\<close> never lets an exception of its \<^verbatim>\<open>try\<close> block
  (decoding the image, preprocessing, generating, decoding the text) reach the caller: the
  only exception that it can raise is the one of the model load before the block, and when
  the load returns and the block raises, the result is the caption \<^verbatim>\<open>"A beautiful image"\<close>.
\<close>

theorem infer_caption_from_data_fallback:
  "(\<forall>e. fst (infer_caption_from_data rt cfg d fn ct s) = Inl e \<longrightarrow>
       fst (load_blip_model rt cfg s) = Inl e) \<and>
   (fst (load_blip_model rt cfg s) = Inr () \<and>
    (\<exists>e. fst (infer_caption_from_data_try rt d (snd (load_blip_model rt cfg s))) = Inl e) \<longrightarrow>
       fst (infer_caption_from_data rt cfg d fn ct s) = Inr ''A beautiful image'')"
proof -
  obtain r1 s1 where l: "load_blip_model rt cfg s = (r1, s1)"
    by (cases "load_blip_model rt cfg s")
  obtain r2 s2 where t: "infer_caption_from_data_try rt d s1 = (r2, s2)"
    by (cases "infer_caption_from_data_try rt d s1")
  show ?thesis using l t
    by (cases r1; cases r2) (auto simp: infer_caption_from_data_def bnd_def try_except_def ok_def)
qed

theorem infer_caption_from_data_fallback_witness:
  "fst (load_blip_model corrupt_image_runtime default_config initial_globals) = Inr () \<and>
   fst (infer_caption_from_data_try corrupt_image_runtime [104, 105]
          (snd (load_blip_model corrupt_image_runtime default_config initial_globals)))
     = Inl (LibraryError ''cannot identify image file'') \<and>
   fst (infer_caption_from_data corrupt_image_runtime default_config [104, 105]
          (Some ''notes.png'') (Some ''image/png'') initial_globals)
     = Inr ''A beautiful image''"
proof -
  have l: "fst (load_blip_model corrupt_image_runtime default_config initial_globals) = Inr ()"
    by (simp add: run_defs)
  have t: "fst (infer_caption_from_data_try corrupt_image_runtime [104, 105]
             (snd (load_blip_model corrupt_image_runtime default_config initial_globals)))
             = Inl (LibraryError ''cannot identify image file'')"
    by (simp add: run_defs)
  show ?thesis
    using infer_caption_from_data_fallback
            [of corrupt_image_runtime default_config "[104, 105]" "Some ''notes.png''"
                "Some ''image/png''" initial_globals] l t
    by simp
qed

text \<open>
  Claim C6. \<^verbatim>\<open>generate_alt_from_caption\<close> never raises, and when the call of
  \<^verbatim>\<open>refine_alt_text\<close> raises, it returns the caption it was given, unchanged.
\<close>

theorem generate_alt_from_caption_never_raises:
  "(\<exists>a. fst (generate_alt_from_caption rt cfg c s) = Inr a) \<and>
   (\<forall>e. fst (refine_alt_text rt cfg c s) = Inl e \<longrightarrow>
      fst (generate_alt_from_caption rt cfg c s) = Inr c)"
  by (auto simp: generate_alt_from_caption_def try_except_def ok_def split: prod.splits sum.splits)

theorem generate_alt_from_caption_never_raises_witness:
  "fst (refine_alt_text offline_runtime default_config long_caption initial_globals)
     = Inl (RuntimeError ''alt refinement model load failed: offline'') \<and>
   fst (generate_alt_from_caption offline_runtime default_config long_caption initial_globals)
     = Inr long_caption"
proof -
  have r: "fst (refine_alt_text offline_runtime default_config long_caption initial_globals)
             = Inl (RuntimeError ''alt refinement model load failed: offline'')"
    by (simp add: run_defs)
  show ?thesis
    using generate_alt_from_caption_never_raises
            [of offline_runtime default_config long_caption initial_globals] r
    by simp
qed

subsection \<open>The endpoint\<close>

text \<open>
  Claim C7. \<^verbatim>\<open>POST /alt\<close>: when the upload has no content type, or one that does not
  start with \<^verbatim>\<open>image/\<close>, the handler raises the HTTP error 400 with the detail
  \<^verbatim>\<open>"file must be an image"\<close>; when the content type is an image type and the body is
  empty, it raises the HTTP error 400 with the detail \<^verbatim>\<open>"empty file"\<close>. In both cases
  the globals and the trace of runtime calls are as before: no model was loaded or run.
\<close>

theorem alt_only_rejects_invalid_upload:
  "((content_type upload = None \<or>
     (\<exists>ct. content_type upload = Some ct \<and> \<not> prefix ''image/'' ct)) \<longrightarrow>
      alt_only rt cfg upload raw debug include_caption s
        = (Inl (HTTPException 400 ''file must be an image''), s)) \<and>
   ((\<exists>ct. content_type upload = Some ct \<and> prefix ''image/'' ct) \<and> file_data upload = [] \<longrightarrow>
      alt_only rt cfg upload raw debug include_caption s
        = (Inl (HTTPException 400 ''empty file''), s))"
  by (auto simp: alt_only_def raise_def Let_def)

theorem alt_only_rejects_invalid_upload_witness:
  "alt_only (fake_runtime cat_caption cat_generation) default_config text_upload False False False
     initial_globals
     = (Inl (HTTPException 400 ''file must be an image''), initial_globals) \<and>
   alt_only (fake_runtime cat_caption cat_generation) default_config untyped_upload False False False
     initial_globals
     = (Inl (HTTPException 400 ''file must be an image''), initial_globals) \<and>
   alt_only (fake_runtime cat_caption cat_generation) default_config empty_upload False False False
     initial_globals
     = (Inl (HTTPException 400 ''empty file''), initial_globals)"
  using alt_only_rejects_invalid_upload
          [of text_upload "fake_runtime cat_caption cat_generation" default_config
              False False False initial_globals]
        alt_only_rejects_invalid_upload
          [of untyped_upload "fake_runtime cat_caption cat_generation" default_config
              False False False initial_globals]
        alt_only_rejects_invalid_upload
          [of empty_upload "fake_runtime cat_caption cat_generation" default_config
              False False False initial_globals]
  by (simp add: text_upload_def untyped_upload_def empty_upload_def)

text \<open>
  Claim C8. \<^verbatim>\<open>POST /alt\<close> with a valid upload (an image content type, a body that is not
  empty), once the captioning stage has returned its caption: the handler returns a JSON
  object whose keys are \<^verbatim>\<open>alt\<close> and \<^verbatim>\<open>raw\<close> when \<^verbatim>\<open>raw\<close> or \<^verbatim>\<open>debug\<close> is set; else
  \<^verbatim>\<open>alt\<close> and \<^verbatim>\<open>caption\<close>, with the captioning stage's output under \<^verbatim>\<open>caption\<close>, when
  \<^verbatim>\<open>include_caption\<close> is set; else \<^verbatim>\<open>alt\<close> alone.
\<close>

theorem alt_only_response_shape:
  assumes "content_type upload = Some ct" and "prefix ''image/'' ct" and "file_data upload \<noteq> []"
    and "fst (infer_caption_from_data rt cfg (file_data upload) (filename upload)
               (content_type upload) s) = Inr caption_text"
  shows "\<exists>resp. fst (alt_only rt cfg upload raw debug include_caption s) = Inr resp \<and>
           (raw \<or> debug \<longrightarrow> map fst resp = [''alt'', ''raw'']) \<and>
           (\<not> (raw \<or> debug) \<and> include_caption \<longrightarrow>
              map fst resp = [''alt'', ''caption''] \<and>
              map_of resp ''caption'' = Some caption_text) \<and>
           (\<not> (raw \<or> debug) \<and> \<not> include_caption \<longrightarrow> map fst resp = [''alt''])"
proof -
  obtain s1 where c: "infer_caption_from_data rt cfg (file_data upload) (filename upload)
                        (content_type upload) s = (Inr caption_text, s1)"
    using assms(4)
    by (cases "infer_caption_from_data rt cfg (file_data upload) (filename upload)
                 (content_type upload) s") auto
  obtain a where "fst (generate_alt_from_caption rt cfg caption_text s1) = Inr a"
    using generate_alt_from_caption_returns by blast
  then obtain s2 where g: "generate_alt_from_caption rt cfg caption_text s1 = (Inr a, s2)"
    by (cases "generate_alt_from_caption rt cfg caption_text s1") auto
  have ct: "ct \<noteq> []" using assms(2) by auto
  show ?thesis
    using assms(1,2,3) ct c g by (simp add: alt_only_def Let_def bnd_def ok_def)
qed

theorem alt_only_response_shape_witness:
  "content_type png_upload = Some ''image/png'' \<and> prefix ''image/'' ''image/png'' \<and>
   file_data png_upload \<noteq> [] \<and>
   fst (infer_caption_from_data (fake_runtime cat_caption cat_generation) default_config
          (file_data png_upload) (filename png_upload) (content_type png_upload) initial_globals)
     = Inr cat_caption \<and>
   (\<exists>resp. fst (alt_only (fake_runtime cat_caption cat_generation) default_config png_upload
                  False False True initial_globals) = Inr resp \<and>
           map fst resp = [''alt'', ''caption''] \<and> map_of resp ''caption'' = Some cat_caption)"
proof -
  have h1: "content_type png_upload = Some ''image/png''" by (simp add: png_upload_def)
  have h2: "prefix ''image/'' ''image/png''" by simp
  have h3: "file_data png_upload \<noteq> []" by (simp add: png_upload_def)
  have h4: "fst (infer_caption_from_data (fake_runtime cat_caption cat_generation) default_config
              (file_data png_upload) (filename png_upload) (content_type png_upload)
              initial_globals) = Inr cat_caption"
    by (simp add: run_defs)
  show ?thesis
    using alt_only_response_shape [OF h1 h2 h3 h4, of False False True] h1 h2 h3 h4
    by simp
qed

text \<open>
  Claim C10. \<^verbatim>\<open>POST /alt\<close> with a valid upload and \<^verbatim>\<open>raw\<close> or \<^verbatim>\<open>debug\<close> set: in the
  response, the value under \<^verbatim>\<open>raw\<close> is the value under \<^verbatim>\<open>alt\<close>.
\<close>

theorem alt_only_raw_equals_alt:
  assumes "content_type upload = Some ct" and "prefix ''image/'' ct" and "file_data upload \<noteq> []"
    and "raw \<or> debug"
    and "fst (alt_only rt cfg upload raw debug include_caption s) = Inr resp"
  shows "map_of resp ''raw'' = map_of resp ''alt'' \<and> map_of resp ''raw'' \<noteq> None"
proof -
  have ct: "ct \<noteq> []" using assms(2) by auto
  show ?thesis
    using assms ct
    by (auto simp: alt_only_def Let_def bnd_def ok_def split: prod.splits sum.splits)
qed

theorem alt_only_raw_equals_alt_witness:
  "content_type png_upload = Some ''image/png'' \<and> prefix ''image/'' ''image/png'' \<and>
   file_data png_upload \<noteq> [] \<and>
   fst (alt_only (fake_runtime cat_caption cat_generation) default_config png_upload
          False True False initial_globals)
     = Inr [(''alt'', ''a cat sitting on a windowsill looking outside''),
            (''raw'', ''a cat sitting on a windowsill looking outside'')] \<and>
   map_of [(''alt'', ''a cat sitting on a windowsill looking outside''),
           (''raw'', ''a cat sitting on a windowsill looking outside'')] ''raw''
     = map_of [(''alt'', ''a cat sitting on a windowsill looking outside''),
               (''raw'', ''a cat sitting on a windowsill looking outside'')] ''alt''"
proof -
  have h1: "content_type png_upload = Some ''image/png''" by (simp add: png_upload_def)
  have h2: "prefix ''image/'' ''image/png''" by simp
  have h3: "file_data png_upload \<noteq> []" by (simp add: png_upload_def)
  have h5: "fst (alt_only (fake_runtime cat_caption cat_generation) default_config png_upload
              False True False initial_globals)
              = Inr [(''alt'', ''a cat sitting on a windowsill looking outside''),
                     (''raw'', ''a cat sitting on a windowsill looking outside'')]"
    by (simp add: run_defs string_defs png_upload_def cat_caption_def cat_generation_def)
  show ?thesis
    using alt_only_raw_equals_alt [OF h1 h2 h3 _ h5] h1 h2 h3 h5
    by blast
qed

section \<open>Facts about the load functions\<close>

subsection \<open>Blocks of statements\<close>

lemma run_stmts_append:
  "run_stmts (xs @ ys) g =
     (case run_stmts xs g of (Inl e, g') \<Rightarrow> (Inl e, g') | (Inr u, g') \<Rightarrow> run_stmts ys g')"
  by (induction xs arbitrary: g) (auto simp: bnd_def ok_def split: prod.splits sum.splits)

lemma run_stmts_prefix:
  assumes "run_stmts bs g0 = (Inr (), g1)"
  shows "\<exists>h. run_stmts (take i bs) g0 = (Inr (), h)"
proof -
  have "run_stmts (take i bs @ drop i bs) g0 = (Inr (), g1)" using assms by simp
  then show ?thesis
    by (simp only: run_stmts_append) (auto split: prod.splits sum.splits)
qed

lemma run_stmts_take_Suc:
  assumes "i < length bs" and "run_stmts (take i bs) g0 = (Inr (), h)"
  shows "run_stmts (take (Suc i) bs) g0 =
           (case (bs ! i) h of (Inl e, h') \<Rightarrow> (Inl e, h') | (Inr u, h') \<Rightarrow> (Inr (), h'))"
  using assms
  by (simp add: take_Suc_conv_app_nth run_stmts_append bnd_def ok_def split: prod.splits sum.splits)

lemma body_step_ok:
  assumes "run_stmts bs g0 = (Inr (), g1)" and "i < length bs"
    and "run_stmts (take i bs) g0 = (Inr (), h)"
  shows "\<exists>h'. (bs ! i) h = (Inr (), h') \<and> run_stmts (take (Suc i) bs) g0 = (Inr (), h')"
proof -
  obtain h' where s: "run_stmts (take (Suc i) bs) g0 = (Inr (), h')"
    using run_stmts_prefix [OF assms(1)] by blast
  then show ?thesis
    using run_stmts_take_Suc [OF assms(2,3)] by (auto split: prod.splits sum.splits)
qed


subsection \<open>The invariant of two interleaved callers\<close>

lemma load_inv_start: "load_inv L g0 g1 (start g0)"
  by (simp add: load_inv_def start_def)


lemma load_inv_update_pc:
  assumes i: "load_inv L g0 g1 c"
    and c': "c' = c\<lparr>pc_of := (pc_of c)(t := p)\<rparr>"
    and cs: "in_cs p \<longleftrightarrow> in_cs (pc_of c t)"
    and seen: "p = Check1_handle \<or> p = Check2_handle \<longrightarrow> model_set L (shared c)"
    and don: "p = Finished None \<or> p = Release None \<longrightarrow> ready L (shared c)"
    and quiet: "\<forall>e. p \<noteq> Release (Some e) \<and> p \<noteq> Finished (Some e)"
    and body: "\<forall>k. p = Body k \<longrightarrow>
                 \<not> ready L g0 \<and> k \<le> length (stmts L) \<and>
                 run_stmts (take k (stmts L)) g0 = (Inr (), shared c)"
    and idle: "(\<exists>k. pc_of c t = Body k) \<and> (\<forall>k. p \<noteq> Body k) \<longrightarrow>
                 shared c = (if ready L (shared c) \<and> \<not> ready L g0 then g1 else g0)"
  shows "load_inv L g0 g1 c'"
proof -
  have A: "\<And>u. in_cs (pc_of c u) \<longleftrightarrow> lock c = Some u" using i unfolding load_inv_def by blast
  have B: "\<And>u. pc_of c u = Check1_handle \<or> pc_of c u = Check2_handle \<Longrightarrow> model_set L (shared c)"
    using i unfolding load_inv_def by blast
  have C: "\<And>u. pc_of c u = Finished None \<or> pc_of c u = Release None \<Longrightarrow> ready L (shared c)"
    using i unfolding load_inv_def by blast
  have F: "\<And>u e. pc_of c u \<noteq> Release (Some e) \<and> pc_of c u \<noteq> Finished (Some e)"
    using i unfolding load_inv_def by blast
  have D: "\<And>u k. pc_of c u = Body k \<Longrightarrow>
             \<not> ready L g0 \<and> k \<le> length (stmts L) \<and>
             run_stmts (take k (stmts L)) g0 = (Inr (), shared c)"
    using i unfolding load_inv_def by blast
  have E: "(\<forall>u k. pc_of c u \<noteq> Body k) \<Longrightarrow>
             shared c = (if ready L (shared c) \<and> \<not> ready L g0 then g1 else g0)"
    using i unfolding load_inv_def by blast
  have pc: "\<And>u. pc_of c' u = (if u = t then p else pc_of c u)" by (simp add: c')
  have sh: "shared c' = shared c" and lk: "lock c' = lock c" by (simp_all add: c')
  have A': "\<forall>u. in_cs (pc_of c' u) \<longleftrightarrow> lock c' = Some u"
    using A cs by (simp add: pc lk)
  have B': "\<forall>u. pc_of c' u = Check1_handle \<or> pc_of c' u = Check2_handle \<longrightarrow> model_set L (shared c')"
    using B seen by (auto simp: pc sh)
  have C': "\<forall>u. pc_of c' u = Finished None \<or> pc_of c' u = Release None \<longrightarrow> ready L (shared c')"
    using C don by (auto simp: pc sh)
  have F': "\<forall>u e. pc_of c' u \<noteq> Release (Some e) \<and> pc_of c' u \<noteq> Finished (Some e)"
    using F quiet by (auto simp: pc)
  have D': "\<forall>u k. pc_of c' u = Body k \<longrightarrow>
              \<not> ready L g0 \<and> k \<le> length (stmts L) \<and>
              run_stmts (take k (stmts L)) g0 = (Inr (), shared c')"
    using D body by (auto simp: pc sh)
  have E': "(\<forall>u k. pc_of c' u \<noteq> Body k) \<longrightarrow>
              shared c' = (if ready L (shared c') \<and> \<not> ready L g0 then g1 else g0)"
  proof
    assume n: "\<forall>u k. pc_of c' u \<noteq> Body k"
    have others: "\<And>u k. u \<noteq> t \<Longrightarrow> pc_of c u \<noteq> Body k" using n by (metis pc)
    have pn: "\<And>k. p \<noteq> Body k" using n by (metis pc)
    show "shared c' = (if ready L (shared c') \<and> \<not> ready L g0 then g1 else g0)"
    proof (cases "\<exists>k. pc_of c t = Body k")
      case True
      then show ?thesis using idle pn by (simp add: sh)
    next
      case False
      then have "\<forall>u k. pc_of c u \<noteq> Body k" using others by metis
      then show ?thesis using E by (simp add: sh)
    qed
  qed
  show ?thesis unfolding load_inv_def using A' B' C' F' D' E' by blast
qed


lemma load_inv_lock: "load_inv L g0 g1 c \<Longrightarrow> in_cs (pc_of c u) \<longleftrightarrow> lock c = Some u"
  unfolding load_inv_def by blast

lemma load_inv_lone_body:
  assumes "load_inv L g0 g1 c" and "in_cs (pc_of c t)" and "\<forall>k. pc_of c t \<noteq> Body k"
  shows "\<forall>u k. pc_of c u \<noteq> Body k"
proof (intro allI notI)
  fix u k assume b: "pc_of c u = Body k"
  then have "in_cs (pc_of c u)" by simp
  then have "u = t" using load_inv_lock [OF assms(1)] assms(2) by auto
  then show False using b assms(3) by simp
qed

lemma load_inv_idle:
  "load_inv L g0 g1 c \<Longrightarrow> \<forall>u k. pc_of c u \<noteq> Body k \<Longrightarrow>
     shared c = (if ready L (shared c) \<and> \<not> ready L g0 then g1 else g0)"
  unfolding load_inv_def by blast

lemma load_inv_body:
  "load_inv L g0 g1 c \<Longrightarrow> pc_of c u = Body k \<Longrightarrow>
     \<not> ready L g0 \<and> k \<le> length (stmts L) \<and>
     run_stmts (take k (stmts L)) g0 = (Inr (), shared c)"
  unfolding load_inv_def by blast

lemma load_inv_acquire:
  assumes i: "load_inv L g0 g1 c" and at: "pc_of c t = Acquire" and free: "lock c = None"
    and c': "c' = c\<lparr>lock := Some t, pc_of := (pc_of c)(t := Check2_model)\<rparr>"
  shows "load_inv L g0 g1 c'"
proof -
  have pc: "\<And>u. pc_of c' u = (if u = t then Check2_model else pc_of c u)" by (simp add: c')
  have sh: "shared c' = shared c" and lk: "lock c' = Some t" by (simp_all add: c')
  have out: "\<And>u. \<not> in_cs (pc_of c u)" using load_inv_lock [OF i] free by simp
  have A': "\<forall>u. in_cs (pc_of c' u) \<longleftrightarrow> lock c' = Some u"
    using out by (auto simp: pc lk)
  have nb: "\<forall>u k. pc_of c u \<noteq> Body k"
  proof (intro allI notI)
    fix u k assume "pc_of c u = Body k"
    then have "in_cs (pc_of c u)" by simp
    then show False using out by simp
  qed
  have rest:
    "(\<forall>u. pc_of c' u = Check1_handle \<or> pc_of c' u = Check2_handle \<longrightarrow> model_set L (shared c')) \<and>
     (\<forall>u. pc_of c' u = Finished None \<or> pc_of c' u = Release None \<longrightarrow> ready L (shared c')) \<and>
     (\<forall>u e. pc_of c' u \<noteq> Release (Some e) \<and> pc_of c' u \<noteq> Finished (Some e)) \<and>
     (\<forall>u k. pc_of c' u = Body k \<longrightarrow>
        \<not> ready L g0 \<and> k \<le> length (stmts L) \<and>
        run_stmts (take k (stmts L)) g0 = (Inr (), shared c'))"
    using i nb unfolding load_inv_def by (auto simp: pc sh)
  have E': "(\<forall>u k. pc_of c' u \<noteq> Body k) \<longrightarrow>
              shared c' = (if ready L (shared c') \<and> \<not> ready L g0 then g1 else g0)"
    using load_inv_idle [OF i nb] by (simp add: sh)
  show ?thesis unfolding load_inv_def using A' rest E' by blast
qed

lemma load_inv_release:
  assumes i: "load_inv L g0 g1 c" and at: "pc_of c t = Release r"
    and c': "c' = c\<lparr>lock := None, pc_of := (pc_of c)(t := Finished r)\<rparr>"
  shows "load_inv L g0 g1 c'"
proof -
  have pc: "\<And>u. pc_of c' u = (if u = t then Finished r else pc_of c u)" by (simp add: c')
  have sh: "shared c' = shared c" and lk: "lock c' = None" by (simp_all add: c')
  have held: "lock c = Some t" using load_inv_lock [OF i, of t] at by simp
  have out: "\<And>u. u \<noteq> t \<Longrightarrow> \<not> in_cs (pc_of c u)" using load_inv_lock [OF i] held by auto
  have A': "\<forall>u. in_cs (pc_of c' u) \<longleftrightarrow> lock c' = Some u"
    using out by (auto simp: pc lk)
  have nb: "\<forall>u k. pc_of c u \<noteq> Body k"
    by (rule load_inv_lone_body [OF i, of t]) (simp_all add: at)
  have rn: "r = None"
  proof (cases r)
    case (Some e)
    then show ?thesis using i at unfolding load_inv_def by blast
  qed simp
  have rd: "ready L (shared c)" using i at rn unfolding load_inv_def by blast
  have rest:
    "(\<forall>u. pc_of c' u = Check1_handle \<or> pc_of c' u = Check2_handle \<longrightarrow> model_set L (shared c')) \<and>
     (\<forall>u. pc_of c' u = Finished None \<or> pc_of c' u = Release None \<longrightarrow> ready L (shared c')) \<and>
     (\<forall>u e. pc_of c' u \<noteq> Release (Some e) \<and> pc_of c' u \<noteq> Finished (Some e)) \<and>
     (\<forall>u k. pc_of c' u = Body k \<longrightarrow>
        \<not> ready L g0 \<and> k \<le> length (stmts L) \<and>
        run_stmts (take k (stmts L)) g0 = (Inr (), shared c'))"
    using i nb rn rd unfolding load_inv_def by (auto simp: pc sh)
  have E': "(\<forall>u k. pc_of c' u \<noteq> Body k) \<longrightarrow>
              shared c' = (if ready L (shared c') \<and> \<not> ready L g0 then g1 else g0)"
    using load_inv_idle [OF i nb] by (simp add: sh)
  show ?thesis unfolding load_inv_def using A' rest E' by blast
qed

lemma load_inv_body_step:
  assumes mono: "monotone_loader L" and seq: "seq_ok L g0 g1"
    and i: "load_inv L g0 g1 c" and at: "pc_of c t = Body k" and k: "k < length (stmts L)"
  shows "\<exists>g. (stmts L ! k) (shared c) = (Inr (), g) \<and>
             load_inv L g0 g1 (c\<lparr>shared := g, pc_of := (pc_of c)(t := Body (Suc k))\<rparr>)"
proof -
  have d: "\<not> ready L g0" "run_stmts (take k (stmts L)) g0 = (Inr (), shared c)"
    using load_inv_body [OF i at] by simp_all
  have whole: "run_stmts (stmts L) g0 = (Inr (), g1)" using seq d(1) by (simp add: seq_ok_def)
  obtain g where g: "(stmts L ! k) (shared c) = (Inr (), g)"
      and pre: "run_stmts (take (Suc k) (stmts L)) g0 = (Inr (), g)"
    using body_step_ok [OF whole k d(2)] by blast
  let ?c' = "c\<lparr>shared := g, pc_of := (pc_of c)(t := Body (Suc k))\<rparr>"
  have pc: "\<And>u. pc_of ?c' u = (if u = t then Body (Suc k) else pc_of c u)" by simp
  have sh: "shared ?c' = g" and lk: "lock ?c' = lock c" by simp_all
  have mem: "stmts L ! k \<in> set (stmts L)" using k by simp
  have m1: "model_set L (shared c) \<Longrightarrow> model_set L g"
    using mono mem g unfolding monotone_loader_def by (metis snd_conv)
  have m2: "handle_set L (shared c) \<Longrightarrow> handle_set L g"
    using mono mem g unfolding monotone_loader_def by (metis snd_conv)
  have held: "lock c = Some t" using load_inv_lock [OF i, of t] at by simp
  have out: "\<And>u. u \<noteq> t \<Longrightarrow> \<not> in_cs (pc_of c u)" using load_inv_lock [OF i] held by auto
  have A': "\<forall>u. in_cs (pc_of ?c' u) \<longleftrightarrow> lock ?c' = Some u"
    using out held by (auto simp: pc)
  have B': "\<forall>u. pc_of ?c' u = Check1_handle \<or> pc_of ?c' u = Check2_handle \<longrightarrow> model_set L (shared ?c')"
    using i m1 unfolding load_inv_def by (auto simp: pc)
  have C': "\<forall>u. pc_of ?c' u = Finished None \<or> pc_of ?c' u = Release None \<longrightarrow> ready L (shared ?c')"
    using i m1 m2 unfolding load_inv_def ready_def by (auto simp: pc)
  have F': "\<forall>u e. pc_of ?c' u \<noteq> Release (Some e) \<and> pc_of ?c' u \<noteq> Finished (Some e)"
    using i unfolding load_inv_def by (auto simp: pc)
  have D': "\<forall>u j. pc_of ?c' u = Body j \<longrightarrow>
              \<not> ready L g0 \<and> j \<le> length (stmts L) \<and>
              run_stmts (take j (stmts L)) g0 = (Inr (), shared ?c')"
  proof (intro allI impI)
    fix u j assume b: "pc_of ?c' u = Body j"
    have "u = t"
    proof (rule ccontr)
      assume "u \<noteq> t"
      then have "pc_of c u = Body j" using b by (simp add: pc)
      then have "in_cs (pc_of c u)" by simp
      then show False using out \<open>u \<noteq> t\<close> by simp
    qed
    then have "j = Suc k" using b by (simp add: pc)
    then show "\<not> ready L g0 \<and> j \<le> length (stmts L) \<and>
               run_stmts (take j (stmts L)) g0 = (Inr (), shared ?c')"
      using d(1) k pre by simp
  qed
  have E': "(\<forall>u j. pc_of ?c' u \<noteq> Body j) \<longrightarrow>
              shared ?c' = (if ready L (shared ?c') \<and> \<not> ready L g0 then g1 else g0)"
    by (auto simp: pc)
  have "load_inv L g0 g1 ?c'" unfolding load_inv_def using A' B' C' F' D' E' by blast
  then show ?thesis using g by blast
qed

lemma load_inv_step:
  assumes mono: "monotone_loader L" and seq: "seq_ok L g0 g1"
    and i: "load_inv L g0 g1 c" and st: "thread_step L t c = Some c'"
  shows "load_inv L g0 g1 c'"
proof (cases "pc_of c t")
  case Check1_model
  then have c': "c' = c\<lparr>pc_of := (pc_of c)(t := if model_set L (shared c) then Check1_handle else Acquire)\<rparr>"
    using st by (simp add: thread_step_def)
  show ?thesis
    by (rule load_inv_update_pc [OF i c']) (simp_all add: Check1_model)
next
  case Check1_handle
  then have c': "c' = c\<lparr>pc_of := (pc_of c)(t := if handle_set L (shared c) then Finished None else Acquire)\<rparr>"
    using st by (simp add: thread_step_def)
  have m: "model_set L (shared c)" using i Check1_handle unfolding load_inv_def by blast
  show ?thesis
    by (rule load_inv_update_pc [OF i c']) (simp_all add: Check1_handle m ready_def)
next
  case Acquire
  then have free: "lock c = None"
    and c': "c' = c\<lparr>lock := Some t, pc_of := (pc_of c)(t := Check2_model)\<rparr>"
    using st by (auto simp: thread_step_def split: if_splits)
  show ?thesis by (rule load_inv_acquire [OF i Acquire free c'])
next
  case Check2_model
  then have c': "c' = c\<lparr>pc_of := (pc_of c)(t := if model_set L (shared c) then Check2_handle else Body 0)\<rparr>"
    using st by (simp add: thread_step_def)
  have nb: "\<forall>u k. pc_of c u \<noteq> Body k"
    by (rule load_inv_lone_body [OF i, of t]) (simp_all add: Check2_model)
  have e: "shared c = (if ready L (shared c) \<and> \<not> ready L g0 then g1 else g0)"
    by (rule load_inv_idle [OF i nb])
  have fresh: "\<not> model_set L (shared c) \<Longrightarrow> shared c = g0 \<and> \<not> ready L g0"
    using e by (auto simp: ready_def split: if_splits)
  show ?thesis
    by (rule load_inv_update_pc [OF i c']) (use fresh in \<open>auto simp: Check2_model ok_def\<close>)
next
  case Check2_handle
  then have c': "c' = c\<lparr>pc_of := (pc_of c)(t := if handle_set L (shared c) then Release None else Body 0)\<rparr>"
    using st by (simp add: thread_step_def)
  have m: "model_set L (shared c)" using i Check2_handle unfolding load_inv_def by blast
  have nb: "\<forall>u k. pc_of c u \<noteq> Body k"
    by (rule load_inv_lone_body [OF i, of t]) (simp_all add: Check2_handle)
  have e: "shared c = (if ready L (shared c) \<and> \<not> ready L g0 then g1 else g0)"
    by (rule load_inv_idle [OF i nb])
  have fresh: "\<not> handle_set L (shared c) \<Longrightarrow> shared c = g0 \<and> \<not> ready L g0"
    using e by (auto simp: ready_def split: if_splits)
  show ?thesis
    by (rule load_inv_update_pc [OF i c']) (use fresh m in \<open>auto simp: Check2_handle ok_def ready_def\<close>)
next
  case (Body k)
  show ?thesis
  proof (cases "k < length (stmts L)")
    case True
    obtain g where g: "(stmts L ! k) (shared c) = (Inr (), g)"
      and i': "load_inv L g0 g1 (c\<lparr>shared := g, pc_of := (pc_of c)(t := Body (Suc k))\<rparr>)"
      using load_inv_body_step [OF mono seq i Body True] by blast
    have "c' = c\<lparr>shared := g, pc_of := (pc_of c)(t := Body (Suc k))\<rparr>"
      using st Body True g by (simp add: thread_step_def)
    then show ?thesis using i' by simp
  next
    case False
    then have c': "c' = c\<lparr>pc_of := (pc_of c)(t := Release None)\<rparr>"
      using st Body by (simp add: thread_step_def)
    have d: "\<not> ready L g0" "k \<le> length (stmts L)"
      "run_stmts (take k (stmts L)) g0 = (Inr (), shared c)"
      using load_inv_body [OF i Body] by simp_all
    have "run_stmts (stmts L) g0 = (Inr (), shared c)" using d False by simp
    then have fin: "shared c = g1" "ready L (shared c)"
      using seq d(1) by (simp_all add: seq_ok_def)
    show ?thesis
      by (rule load_inv_update_pc [OF i c']) (use fin d(1) in \<open>auto simp: Body\<close>)
  qed
next
  case (Release r)
  then have c': "c' = c\<lparr>lock := None, pc_of := (pc_of c)(t := Finished r)\<rparr>"
    using st by (simp add: thread_step_def)
  show ?thesis by (rule load_inv_release [OF i Release c'])
next
  case (Finished r)
  then show ?thesis using st by (simp add: thread_step_def)
qed

lemma load_inv_run:
  assumes "monotone_loader L" and "seq_ok L g0 g1"
  shows "load_inv L g0 g1 c \<Longrightarrow> run_schedule L sched c = Some c' \<Longrightarrow> load_inv L g0 g1 c'"
proof (induction sched arbitrary: c)
  case Nil
  then show ?case by simp
next
  case (Cons t ts)
  then show ?case
    using load_inv_step [OF assms]
    by (auto split: option.splits)
qed

lemma load_inv_final:
  assumes seq: "seq_ok L g0 g1" and i: "load_inv L g0 g1 c" and f: "all_finished c"
  shows "pc_of c Caller_A = Finished None \<and> pc_of c Caller_B = Finished None \<and>
         shared c = g1 \<and> ready L g1"
proof -
  have fin: "\<And>u. \<exists>r. pc_of c u = Finished r"
  proof -
    fix u show "\<exists>r. pc_of c u = Finished r"
      using f by (cases u; cases "pc_of c u") (auto simp: all_finished_def)
  qed
  have q: "\<And>u e. pc_of c u \<noteq> Finished (Some e)" using i unfolding load_inv_def by blast
  have ret: "\<And>u. pc_of c u = Finished None"
  proof -
    fix u obtain r where "pc_of c u = Finished r" using fin by blast
    then show "pc_of c u = Finished None" using q [of u] by (cases r) auto
  qed
  have r: "ready L (shared c)" using i ret [of Caller_A] unfolding load_inv_def by blast
  have nb: "\<forall>u k. pc_of c u \<noteq> Body k" using ret by simp
  have "shared c = (if ready L (shared c) \<and> \<not> ready L g0 then g1 else g0)"
    by (rule load_inv_idle [OF i nb])
  then have "shared c = g1" using r seq by (auto simp: seq_ok_def split: if_splits)
  then show ?thesis using ret r by simp
qed

subsection \<open>Every interleaving ends\<close>

lemma step_decreases:
  assumes "thread_step L t c = Some c'"
  shows "remaining L c' < remaining L c"
  using assms
  by (cases t; cases "pc_of c t")
     (auto simp: thread_step_def remaining_def split: if_splits prod.splits sum.splits)

lemma run_bounded:
  "run_schedule L sched c = Some c' \<Longrightarrow> length sched + remaining L c' \<le> remaining L c"
proof (induction sched arbitrary: c)
  case Nil
  then show ?case by simp
next
  case (Cons t ts)
  then obtain c1 where s: "thread_step L t c = Some c1" and r: "run_schedule L ts c1 = Some c'"
    by (auto split: option.splits)
  show ?case using Cons.IH [OF r] step_decreases [OF s] by simp
qed

lemma step_enabled:
  assumes "pc_of c t \<noteq> Acquire" and "\<not> finished (pc_of c t)"
  shows "\<exists>c'. thread_step L t c = Some c'"
  using assms
  by (cases "pc_of c t") (auto simp: thread_step_def split: prod.splits sum.splits)

lemma no_deadlock:
  assumes i: "load_inv L g0 g1 c" and n: "\<not> all_finished c"
  shows "\<exists>t c'. thread_step L t c = Some c'"
proof -
  obtain u where u: "\<not> finished (pc_of c u)"
    using n by (auto simp: all_finished_def)
  show ?thesis
  proof (cases "pc_of c u = Acquire")
    case False
    then show ?thesis using step_enabled [OF False u] by blast
  next
    case True
    show ?thesis
    proof (cases "lock c")
      case None
      have "thread_step L u c = Some (c\<lparr>lock := Some u, pc_of := (pc_of c)(u := Check2_model)\<rparr>)"
        using True None by (simp add: thread_step_def)
      then show ?thesis by blast
    next
      case (Some v)
      then have cs: "in_cs (pc_of c v)" using load_inv_lock [OF i, of v] by simp
      then have "pc_of c v \<noteq> Acquire" and "\<not> finished (pc_of c v)"
        by (cases "pc_of c v"; simp)+
      then show ?thesis using step_enabled [of c v L] by blast
    qed
  qed
qed

lemma completes:
  assumes mono: "monotone_loader L" and seq: "seq_ok L g0 g1"
  shows "load_inv L g0 g1 c \<Longrightarrow> \<exists>more c'. run_schedule L more c = Some c' \<and> all_finished c'"
proof (induction "remaining L c" arbitrary: c rule: less_induct)
  case less
  show ?case
  proof (cases "all_finished c")
    case True
    then have "run_schedule L [] c = Some c \<and> all_finished c" by simp
    then show ?thesis by blast
  next
    case False
    obtain t c1 where s: "thread_step L t c = Some c1"
      using no_deadlock [OF less.prems False] by blast
    have i1: "load_inv L g0 g1 c1" by (rule load_inv_step [OF mono seq less.prems s])
    obtain more c' where r: "run_schedule L more c1 = Some c'" and f: "all_finished c'"
      using less.hyps [OF step_decreases [OF s] i1] by blast
    have "run_schedule L (t # more) c = Some c'" using s r by simp
    then show ?thesis using f by blast
  qed
qed



lemma load_blip_model_load_with: "load_blip_model rt cfg = load_with (blip_loader rt cfg)"
  by (rule ext) (simp add: load_blip_model_def load_with_def blip_loader_def load_blip_model_try_def)

lemma load_alt_refinement_model_load_with:
  "load_alt_refinement_model rt cfg = load_with (alt_loader rt cfg)"
  by (rule ext)
     (simp add: load_alt_refinement_model_def load_with_def alt_loader_def
        load_alt_refinement_model_try_def)

subsection \<open>The two loaders of the service\<close>

lemma blip_monotone: "monotone_loader (blip_loader rt cfg)"
  by (auto simp: monotone_loader_def blip_loader_def load_blip_model_stmts_def prog_defs
      split: prod.splits sum.splits if_splits option.splits)

lemma alt_monotone: "monotone_loader (alt_loader rt cfg)"
  by (auto simp: monotone_loader_def alt_loader_def load_alt_refinement_model_stmts_def prog_defs
      split: prod.splits sum.splits if_splits option.splits)

lemma run_stmts_Cons_ok:
  "run_stmts (b # bs) g = (Inr (), g') \<longleftrightarrow>
     (\<exists>h. b g = (Inr (), h) \<and> run_stmts bs h = (Inr (), g'))"
  by (auto simp: bnd_def split: prod.splits sum.splits)

lemma run_stmts_Nil_ok: "run_stmts [] g = (Inr (), g') \<longleftrightarrow> g' = g"
  by (auto simp: ok_def)

lemma blip_stmt0:
  assumes "(load_blip_model_stmts rt cfg ! 0) g = (Inr (), h)"
  shows "BLIP_PROCESSOR h \<noteq> None \<and> BLIP_MODEL h = BLIP_MODEL g \<and>
         trace h = trace g @ [BlipProcessor_load]"
  using assms
  by (auto simp: load_blip_model_stmts_def prog_defs split: prod.splits sum.splits)

lemma blip_stmt1:
  assumes "(load_blip_model_stmts rt cfg ! 1) g = (Inr (), h)"
  shows "BLIP_MODEL h \<noteq> None \<and> BLIP_PROCESSOR h = BLIP_PROCESSOR g \<and>
         trace h = trace g @ [BlipModel_load]"
  using assms
  by (auto simp: load_blip_model_stmts_def prog_defs split: prod.splits sum.splits)

lemma blip_stmt2:
  assumes "(load_blip_model_stmts rt cfg ! 2) g = (Inr (), h)"
  shows "(BLIP_MODEL g \<noteq> None \<longrightarrow> BLIP_MODEL h \<noteq> None) \<and>
         BLIP_PROCESSOR h = BLIP_PROCESSOR g \<and>
         (trace h = trace g @ [Mps_query] \<or> trace h = trace g @ [Mps_query, Model_to_mps])"
  using assms
  by (auto simp: load_blip_model_stmts_def prog_defs
      split: prod.splits sum.splits if_splits option.splits)

lemma blip_stmt3:
  assumes "(load_blip_model_stmts rt cfg ! 3) g = (Inr (), h)"
  shows "(BLIP_MODEL g \<noteq> None \<longrightarrow> BLIP_MODEL h \<noteq> None) \<and>
         BLIP_PROCESSOR h = BLIP_PROCESSOR g \<and> trace h = trace g @ [Model_eval]"
  using assms
  by (auto simp: load_blip_model_stmts_def prog_defs
      split: prod.splits sum.splits if_splits option.splits)

lemma blip_stmts_list:
  "load_blip_model_stmts rt cfg =
     [load_blip_model_stmts rt cfg ! 0, load_blip_model_stmts rt cfg ! 1,
      load_blip_model_stmts rt cfg ! 2, load_blip_model_stmts rt cfg ! 3]"
  by (simp add: load_blip_model_stmts_def)

lemma blip_stmts_effect:
  assumes "run_stmts (load_blip_model_stmts rt cfg) g = (Inr (), g')"
  shows "BLIP_MODEL g' \<noteq> None \<and> BLIP_PROCESSOR g' \<noteq> None \<and>
         count_list (trace g') BlipModel_load = Suc (count_list (trace g) BlipModel_load) \<and>
         count_list (trace g') BlipProcessor_load = Suc (count_list (trace g) BlipProcessor_load)"
proof -
  have "run_stmts [load_blip_model_stmts rt cfg ! 0, load_blip_model_stmts rt cfg ! 1,
          load_blip_model_stmts rt cfg ! 2, load_blip_model_stmts rt cfg ! 3] g = (Inr (), g')"
    using assms blip_stmts_list [of rt cfg] by simp
  then obtain h1 h2 h3 where
      s0: "(load_blip_model_stmts rt cfg ! 0) g = (Inr (), h1)"
    and s1: "(load_blip_model_stmts rt cfg ! 1) h1 = (Inr (), h2)"
    and s2: "(load_blip_model_stmts rt cfg ! 2) h2 = (Inr (), h3)"
    and s3: "(load_blip_model_stmts rt cfg ! 3) h3 = (Inr (), g')"
    by (simp only: run_stmts_Cons_ok run_stmts_Nil_ok) blast
  show ?thesis
    using blip_stmt0 [OF s0] blip_stmt1 [OF s1] blip_stmt2 [OF s2] blip_stmt3 [OF s3]
    by auto
qed

lemma alt_stmt0:
  assumes "(load_alt_refinement_model_stmts rt cfg ! 0) g = (Inr (), h)"
  shows "ALT_TOKENIZER h \<noteq> None \<and> ALT_MODEL h = ALT_MODEL g \<and>
         trace h = trace g @ [Tokenizer_load]"
  using assms
  by (auto simp: load_alt_refinement_model_stmts_def prog_defs split: prod.splits sum.splits)

lemma alt_stmt1:
  assumes "(load_alt_refinement_model_stmts rt cfg ! 1) g = (Inr (), h)"
  shows "(ALT_TOKENIZER g \<noteq> None \<longrightarrow> ALT_TOKENIZER h \<noteq> None) \<and> ALT_MODEL h = ALT_MODEL g \<and>
         trace h = trace g @ [Set_pad_token]"
  using assms
  by (auto simp: load_alt_refinement_model_stmts_def prog_defs
      split: prod.splits sum.splits if_splits option.splits)

lemma alt_stmt2:
  assumes "(load_alt_refinement_model_stmts rt cfg ! 2) g = (Inr (), h)"
  shows "ALT_MODEL h \<noteq> None \<and> ALT_TOKENIZER h = ALT_TOKENIZER g \<and>
         trace h = trace g @ [CausalLM_load]"
  using assms
  by (auto simp: load_alt_refinement_model_stmts_def prog_defs split: prod.splits sum.splits)

lemma alt_stmt3:
  assumes "(load_alt_refinement_model_stmts rt cfg ! 3) g = (Inr (), h)"
  shows "(ALT_MODEL g \<noteq> None \<longrightarrow> ALT_MODEL h \<noteq> None) \<and> ALT_TOKENIZER h = ALT_TOKENIZER g \<and>
         trace h = trace g @ [Model_eval]"
  using assms
  by (auto simp: load_alt_refinement_model_stmts_def prog_defs
      split: prod.splits sum.splits if_splits option.splits)

lemma alt_stmt4:
  assumes "(load_alt_refinement_model_stmts rt cfg ! 4) g = (Inr (), h)"
  shows "(ALT_MODEL g \<noteq> None \<longrightarrow> ALT_MODEL h \<noteq> None) \<and> ALT_TOKENIZER h = ALT_TOKENIZER g \<and>
         (trace h = trace g @ [Mps_query] \<or> trace h = trace g @ [Mps_query, Model_to_mps])"
  using assms
  by (auto simp: load_alt_refinement_model_stmts_def prog_defs
      split: prod.splits sum.splits if_splits option.splits)

lemma alt_stmts_list:
  "load_alt_refinement_model_stmts rt cfg =
     [load_alt_refinement_model_stmts rt cfg ! 0, load_alt_refinement_model_stmts rt cfg ! 1,
      load_alt_refinement_model_stmts rt cfg ! 2, load_alt_refinement_model_stmts rt cfg ! 3,
      load_alt_refinement_model_stmts rt cfg ! 4]"
  by (simp add: load_alt_refinement_model_stmts_def)

lemma alt_stmts_effect:
  assumes "run_stmts (load_alt_refinement_model_stmts rt cfg) g = (Inr (), g')"
  shows "ALT_MODEL g' \<noteq> None \<and> ALT_TOKENIZER g' \<noteq> None \<and>
         count_list (trace g') CausalLM_load = Suc (count_list (trace g) CausalLM_load) \<and>
         count_list (trace g') Tokenizer_load = Suc (count_list (trace g) Tokenizer_load)"
proof -
  have "run_stmts [load_alt_refinement_model_stmts rt cfg ! 0,
          load_alt_refinement_model_stmts rt cfg ! 1, load_alt_refinement_model_stmts rt cfg ! 2,
          load_alt_refinement_model_stmts rt cfg ! 3, load_alt_refinement_model_stmts rt cfg ! 4] g
          = (Inr (), g')"
    using assms alt_stmts_list [of rt cfg] by simp
  then obtain h1 h2 h3 h4 where
      s0: "(load_alt_refinement_model_stmts rt cfg ! 0) g = (Inr (), h1)"
    and s1: "(load_alt_refinement_model_stmts rt cfg ! 1) h1 = (Inr (), h2)"
    and s2: "(load_alt_refinement_model_stmts rt cfg ! 2) h2 = (Inr (), h3)"
    and s3: "(load_alt_refinement_model_stmts rt cfg ! 3) h3 = (Inr (), h4)"
    and s4: "(load_alt_refinement_model_stmts rt cfg ! 4) h4 = (Inr (), g')"
    by (simp only: run_stmts_Cons_ok run_stmts_Nil_ok) blast
  show ?thesis
    using alt_stmt0 [OF s0] alt_stmt1 [OF s1] alt_stmt2 [OF s2] alt_stmt3 [OF s3] alt_stmt4 [OF s4]
    by auto
qed

lemma load_with_returns:
  assumes "load_with L g0 = (Inr (), g1)"
  shows "if ready L g0 then g1 = g0 else run_stmts (stmts L) g0 = (Inr (), g1)"
  using assms
  by (auto simp: load_with_def try_except_def raise_def ok_def ready_def
      split: if_splits prod.splits sum.splits)

lemma load_with_ready: "ready L g \<Longrightarrow> load_with L g = (Inr (), g)"
  by (simp add: load_with_def ready_def ok_def)

lemma blip_ready_loader: "ready (blip_loader rt cfg) g \<longleftrightarrow> blip_ready g"
  by (simp add: ready_def blip_loader_def blip_ready_def)

lemma alt_ready_loader: "ready (alt_loader rt cfg) g \<longleftrightarrow> alt_ready g"
  by (simp add: ready_def alt_loader_def alt_ready_def)

lemma blip_loader_stmts: "stmts (blip_loader rt cfg) = load_blip_model_stmts rt cfg"
  by (simp add: blip_loader_def)

lemma alt_loader_stmts: "stmts (alt_loader rt cfg) = load_alt_refinement_model_stmts rt cfg"
  by (simp add: alt_loader_def)

lemma blip_seq_ok:
  assumes "load_blip_model rt cfg g0 = (Inr (), g1)"
  shows "seq_ok (blip_loader rt cfg) g0 g1"
proof -
  have r: "if ready (blip_loader rt cfg) g0 then g1 = g0
           else run_stmts (stmts (blip_loader rt cfg)) g0 = (Inr (), g1)"
    using assms by (intro load_with_returns) (simp add: load_blip_model_load_with)
  show ?thesis
  proof (cases "ready (blip_loader rt cfg) g0")
    case True
    then show ?thesis using r by (simp add: seq_ok_def)
  next
    case False
    then have e: "run_stmts (load_blip_model_stmts rt cfg) g0 = (Inr (), g1)"
      using r by (simp add: blip_loader_stmts)
    have "blip_ready g1" using blip_stmts_effect [OF e] by (simp add: blip_ready_def)
    then show ?thesis using r False by (simp add: seq_ok_def blip_ready_loader)
  qed
qed

lemma alt_seq_ok:
  assumes "load_alt_refinement_model rt cfg g0 = (Inr (), g1)"
  shows "seq_ok (alt_loader rt cfg) g0 g1"
proof -
  have r: "if ready (alt_loader rt cfg) g0 then g1 = g0
           else run_stmts (stmts (alt_loader rt cfg)) g0 = (Inr (), g1)"
    using assms by (intro load_with_returns) (simp add: load_alt_refinement_model_load_with)
  show ?thesis
  proof (cases "ready (alt_loader rt cfg) g0")
    case True
    then show ?thesis using r by (simp add: seq_ok_def)
  next
    case False
    then have e: "run_stmts (load_alt_refinement_model_stmts rt cfg) g0 = (Inr (), g1)"
      using r by (simp add: alt_loader_stmts)
    have "alt_ready g1" using alt_stmts_effect [OF e] by (simp add: alt_ready_def)
    then show ?thesis using r False by (simp add: seq_ok_def alt_ready_loader)
  qed
qed

lemma blip_sequential:
  assumes "load_blip_model rt cfg s = (Inr (), s1)"
  shows "blip_ready s1 \<and> load_blip_model rt cfg s1 = (Inr (), s1) \<and>
         count_list (trace s1) BlipModel_load
           = count_list (trace s) BlipModel_load + (if blip_ready s then 0 else 1) \<and>
         count_list (trace s1) BlipProcessor_load
           = count_list (trace s) BlipProcessor_load + (if blip_ready s then 0 else 1)"
proof -
  have q: "seq_ok (blip_loader rt cfg) s s1" by (rule blip_seq_ok [OF assms])
  show ?thesis
  proof (cases "blip_ready s")
    case True
    then have "s1 = s" using q by (simp add: seq_ok_def blip_ready_loader)
    then show ?thesis using True assms by simp
  next
    case False
    then have r: "run_stmts (load_blip_model_stmts rt cfg) s = (Inr (), s1)"
      using q by (simp add: seq_ok_def blip_ready_loader blip_loader_stmts)
    have rd: "blip_ready s1" using blip_stmts_effect [OF r] by (simp add: blip_ready_def)
    then have "load_blip_model rt cfg s1 = (Inr (), s1)"
      by (simp add: load_blip_model_load_with load_with_ready blip_ready_loader)
    then show ?thesis using rd False blip_stmts_effect [OF r] by simp
  qed
qed

lemma alt_sequential:
  assumes "load_alt_refinement_model rt cfg s = (Inr (), s1)"
  shows "alt_ready s1 \<and> load_alt_refinement_model rt cfg s1 = (Inr (), s1) \<and>
         count_list (trace s1) CausalLM_load
           = count_list (trace s) CausalLM_load + (if alt_ready s then 0 else 1) \<and>
         count_list (trace s1) Tokenizer_load
           = count_list (trace s) Tokenizer_load + (if alt_ready s then 0 else 1)"
proof -
  have q: "seq_ok (alt_loader rt cfg) s s1" by (rule alt_seq_ok [OF assms])
  show ?thesis
  proof (cases "alt_ready s")
    case True
    then have "s1 = s" using q by (simp add: seq_ok_def alt_ready_loader)
    then show ?thesis using True assms by simp
  next
    case False
    then have r: "run_stmts (load_alt_refinement_model_stmts rt cfg) s = (Inr (), s1)"
      using q by (simp add: seq_ok_def alt_ready_loader alt_loader_stmts)
    have rd: "alt_ready s1" using alt_stmts_effect [OF r] by (simp add: alt_ready_def)
    then have "load_alt_refinement_model rt cfg s1 = (Inr (), s1)"
      by (simp add: load_alt_refinement_model_load_with load_with_ready alt_ready_loader)
    then show ?thesis using rd False alt_stmts_effect [OF r] by simp
  qed
qed

lemma concurrent_callers:
  assumes mono: "monotone_loader L" and seq: "seq_ok L g0 g1"
    and run: "run_schedule L sched (start g0) = Some c"
  shows "(all_finished c \<longrightarrow>
            pc_of c Caller_A = Finished None \<and> pc_of c Caller_B = Finished None \<and> shared c = g1) \<and>
         (\<exists>more c'. run_schedule L more c = Some c' \<and> all_finished c')"
proof -
  have i: "load_inv L g0 g1 c" by (rule load_inv_run [OF mono seq load_inv_start run])
  show ?thesis using load_inv_final [OF seq i] completes [OF mono seq i] by blast
qed

subsection \<open>Loading once\<close>

text \<open>
  Claim C9. Each load function (\<^verbatim>\<open>load_blip_model\<close>, \<^verbatim>\<open>load_alt_refinement_model\<close>) is
  idempotent. Once the model and its processor or tokenizer are set, a call returns with
  the globals and the trace of runtime calls unchanged. A call that returns leaves both
  handles set, and a second call after it loads nothing: the two calls make exactly one
  call of each \<^verbatim>\<open>from_pretrained\<close> when nothing was loaded before, none otherwise. The
  same holds for two concurrent callers: whatever the interleaving of their steps, when
  both calls are over both have returned and the globals are those that one sequential
  call leaves; and every interleaving can be continued until both calls are over. (All of
  this is about a load that returns; what a failing load leaves behind is not part of the
  claim.)
\<close>

theorem load_idempotent:
  "(blip_ready s \<longrightarrow> load_blip_model rt cfg s = (Inr (), s)) \<and>
   (alt_ready s \<longrightarrow> load_alt_refinement_model rt cfg s = (Inr (), s)) \<and>
   (load_blip_model rt cfg s = (Inr (), s1) \<longrightarrow>
      blip_ready s1 \<and> load_blip_model rt cfg s1 = (Inr (), s1) \<and>
      count_list (trace s1) BlipModel_load
        = count_list (trace s) BlipModel_load + (if blip_ready s then 0 else 1) \<and>
      count_list (trace s1) BlipProcessor_load
        = count_list (trace s) BlipProcessor_load + (if blip_ready s then 0 else 1) \<and>
      (\<forall>sched c. run_schedule (blip_loader rt cfg) sched (start s) = Some c \<longrightarrow>
         (all_finished c \<longrightarrow>
            pc_of c Caller_A = Finished None \<and> pc_of c Caller_B = Finished None \<and>
            shared c = s1) \<and>
         (\<exists>more c'. run_schedule (blip_loader rt cfg) more c = Some c' \<and> all_finished c'))) \<and>
   (load_alt_refinement_model rt cfg s = (Inr (), s2) \<longrightarrow>
      alt_ready s2 \<and> load_alt_refinement_model rt cfg s2 = (Inr (), s2) \<and>
      count_list (trace s2) CausalLM_load
        = count_list (trace s) CausalLM_load + (if alt_ready s then 0 else 1) \<and>
      count_list (trace s2) Tokenizer_load
        = count_list (trace s) Tokenizer_load + (if alt_ready s then 0 else 1) \<and>
      (\<forall>sched c. run_schedule (alt_loader rt cfg) sched (start s) = Some c \<longrightarrow>
         (all_finished c \<longrightarrow>
            pc_of c Caller_A = Finished None \<and> pc_of c Caller_B = Finished None \<and>
            shared c = s2) \<and>
         (\<exists>more c'. run_schedule (alt_loader rt cfg) more c = Some c' \<and> all_finished c')))"
proof -
  have 1: "blip_ready s \<longrightarrow> load_blip_model rt cfg s = (Inr (), s)"
    by (simp add: load_blip_model_load_with load_with_ready blip_ready_loader)
  have 2: "alt_ready s \<longrightarrow> load_alt_refinement_model rt cfg s = (Inr (), s)"
    by (simp add: load_alt_refinement_model_load_with load_with_ready alt_ready_loader)
  have 3: "\<forall>sched c. run_schedule (blip_loader rt cfg) sched (start s) = Some c \<longrightarrow>
         (all_finished c \<longrightarrow>
            pc_of c Caller_A = Finished None \<and> pc_of c Caller_B = Finished None \<and>
            shared c = s1) \<and>
         (\<exists>more c'. run_schedule (blip_loader rt cfg) more c = Some c' \<and> all_finished c')"
    if l: "load_blip_model rt cfg s = (Inr (), s1)"
    using concurrent_callers [OF blip_monotone blip_seq_ok [OF l]] by blast
  have 4: "\<forall>sched c. run_schedule (alt_loader rt cfg) sched (start s) = Some c \<longrightarrow>
         (all_finished c \<longrightarrow>
            pc_of c Caller_A = Finished None \<and> pc_of c Caller_B = Finished None \<and>
            shared c = s2) \<and>
         (\<exists>more c'. run_schedule (alt_loader rt cfg) more c = Some c' \<and> all_finished c')"
    if l: "load_alt_refinement_model rt cfg s = (Inr (), s2)"
    using concurrent_callers [OF alt_monotone alt_seq_ok [OF l]] by blast
  show ?thesis
    using 1 2 3 4 blip_sequential [of rt cfg s s1] alt_sequential [of rt cfg s s2]
    by blast
qed

lemmas schedule_defs = thread_step_def start_def all_finished_def blip_loader_def alt_loader_def
  fast_path_schedule_def waiting_schedule_def loaded_blip_globals_def loaded_alt_globals_def

theorem load_idempotent_witness:
  "load_blip_model (fake_runtime cat_caption cat_generation) default_config initial_globals
     = (Inr (), loaded_blip_globals) \<and>
   (\<exists>c. run_schedule (blip_loader (fake_runtime cat_caption cat_generation) default_config)
           fast_path_schedule (start initial_globals) = Some c \<and>
        all_finished c \<and> shared c = loaded_blip_globals \<and>
        pc_of c Caller_A = Finished None \<and> pc_of c Caller_B = Finished None) \<and>
   blip_ready loaded_blip_globals \<and>
   count_list (trace loaded_blip_globals) BlipModel_load = 1 \<and>
   load_blip_model (fake_runtime cat_caption cat_generation) default_config loaded_blip_globals
     = (Inr (), loaded_blip_globals) \<and>
   load_alt_refinement_model (fake_runtime cat_caption cat_generation) default_config initial_globals
     = (Inr (), loaded_alt_globals) \<and>
   (\<exists>c. run_schedule (alt_loader (fake_runtime cat_caption cat_generation) default_config)
           waiting_schedule (start initial_globals) = Some c \<and>
        all_finished c \<and> shared c = loaded_alt_globals \<and>
        pc_of c Caller_A = Finished None \<and> pc_of c Caller_B = Finished None) \<and>
   alt_ready loaded_alt_globals \<and>
   count_list (trace loaded_alt_globals) CausalLM_load = 1 \<and>
   load_alt_refinement_model (fake_runtime cat_caption cat_generation) default_config
     loaded_alt_globals = (Inr (), loaded_alt_globals)"
proof -
  let ?rt = "fake_runtime cat_caption cat_generation"
  have lb: "load_blip_model ?rt default_config initial_globals = (Inr (), loaded_blip_globals)"
    by (simp add: run_defs loaded_blip_globals_def)
  have la: "load_alt_refinement_model ?rt default_config initial_globals
              = (Inr (), loaded_alt_globals)"
    by (simp add: run_defs loaded_alt_globals_def)
  have rb: "\<exists>c. run_schedule (blip_loader ?rt default_config) fast_path_schedule
                  (start initial_globals) = Some c \<and> all_finished c"
    by (simp add: run_defs schedule_defs)
  have ra: "\<exists>c. run_schedule (alt_loader ?rt default_config) waiting_schedule
                  (start initial_globals) = Some c \<and> all_finished c"
    by (simp add: run_defs schedule_defs)
  have cb: "count_list (trace initial_globals) BlipModel_load = 0"
    and ca: "count_list (trace initial_globals) CausalLM_load = 0"
    and nb: "\<not> blip_ready initial_globals" and na: "\<not> alt_ready initial_globals"
    by (simp_all add: initial_globals_def blip_ready_def alt_ready_def)
  show ?thesis
    using load_idempotent [where s = initial_globals and rt = ?rt and cfg = default_config
            and ?s1.0 = loaded_blip_globals and ?s2.0 = loaded_alt_globals]
      lb la rb ra cb ca nb na
    by (auto simp del: run_schedule.simps)
qed

end
